theory Spec2Isabelle
  imports Main "HOL-Library.Sublist"
begin

section \<open>Python strings\<close>

text \<open>
  A Python \<open>str\<close> is modelled as a \<open>string\<close>, one \<open>char\<close> per code point (the code
  points below 256). \<open>needle in s\<close> is \<open>sublist needle s\<close>, \<open>s[:n]\<close> for a constant
  \<open>n \<ge> 0\<close> is \<open>take n s\<close>, \<open>len\<close> is \<open>length\<close>.
\<close>

definition py_lower_char :: "char \<Rightarrow> char" where
  "py_lower_char c =
     (let n = (of_char c :: nat)
      in if (65 \<le> n \<and> n \<le> 90) \<or> (192 \<le> n \<and> n \<le> 222 \<and> n \<noteq> 215)
         then char_of (n + 32) else c)"

definition py_lower :: "string \<Rightarrow> string" where
  "py_lower s = map py_lower_char s"

definition py_isspace :: "char \<Rightarrow> bool" where
  "py_isspace c =
     (let n = (of_char c :: nat)
      in (9 \<le> n \<and> n \<le> 13) \<or> (28 \<le> n \<and> n \<le> 32) \<or> n = 133 \<or> n = 160)"

definition py_strip :: "string \<Rightarrow> string" where
  "py_strip s = rev (dropWhile py_isspace (rev (dropWhile py_isspace s)))"

text \<open>
  \<open>s.replace(old, new)\<close>: one scan from the left, replacing each occurrence of \<open>old\<close>
  and resuming after it. \<open>old\<close> is a non-empty literal at every call in the source.
\<close>

function py_replace :: "string \<Rightarrow> string \<Rightarrow> string \<Rightarrow> string" where
  "py_replace old new [] = []"
| "py_replace old new (c # cs) =
     (if old \<noteq> [] \<and> prefix old (c # cs)
      then new @ py_replace old new (drop (length old) (c # cs))
      else c # py_replace old new cs)"
  by pat_completeness auto
termination
  by (relation "measure (\<lambda>(old, new, s). length s)") auto

text \<open>Decimal rendering of a non-negative integer, as an f-string does it.\<close>

fun show_nat :: "nat \<Rightarrow> string" where
  "show_nat n =
     (if n < 10 then [char_of (48 + n)]
      else show_nat (n div 10) @ [char_of (48 + n mod 10)])"

declare show_nat.simps [simp del]

section \<open>The news item\<close>

text \<open>A JSON number, held as the literal that denotes it.\<close>

datatype json_number = JsonNumber string

datatype item_type = CVE | News

record news_item =
  title :: string
  link :: string
  summary :: string
  source :: string
  date :: "string option"
  type :: item_type
  cve_id :: "string option"
  cvss_score :: "json_number option"

section \<open>news\_fetcher.py: cleaning and normalising one feed entry\<close>

text \<open>
  The source's private functions are named without their leading underscore.

  \<open>_HTML_TAG_PATTERN = re.compile(r'<[^<]+?>')\<close>. A match starts at a \<open><\<close>, takes at
  least one character other than \<open><\<close>, then as few more as possible, up to a \<open>>\<close>.
  \<open>tag_end\<close> scans for that closing \<open>>\<close> after the first character of the body;
  \<open>match_tag\<close> gives the text after a match at the start of the string.
\<close>

fun tag_end :: "string \<Rightarrow> string option" where
  "tag_end [] = None"
| "tag_end (c # cs) =
     (if c = CHR ''>'' then Some cs else if c = CHR ''<'' then None else tag_end cs)"

definition match_tag :: "string \<Rightarrow> string option" where
  "match_tag s =
     (case s of
        c1 # c2 # cs \<Rightarrow> if c1 = CHR ''<'' \<and> c2 \<noteq> CHR ''<'' then tag_end cs else None
      | _ \<Rightarrow> None)"

text \<open>
  \<open>_HTML_TAG_PATTERN.sub('', text)\<close>: one pass from the left; a match is dropped and the
  scan resumes after it, any other character is copied.
\<close>

function sub_tags :: "string \<Rightarrow> string" where
  "sub_tags [] = []"
| "sub_tags (c # cs) =
     (case match_tag (c # cs) of
        Some rest \<Rightarrow> sub_tags rest
      | None \<Rightarrow> c # sub_tags cs)"
  by pat_completeness auto
termination
proof (relation "measure length")
  show "wf (measure (length :: string \<Rightarrow> nat))"
    by simp
next
  fix c :: char and cs rest :: string
  assume m: "match_tag (c # cs) = Some rest"
  have te: "tag_end xs = Some r \<Longrightarrow> length r < length xs" for xs r
    by (induction xs) (auto split: if_splits)
  from m have "length rest < length (c # cs)"
    by (auto simp: match_tag_def split: list.splits if_splits dest!: te)
  then show "(rest, c # cs) \<in> measure length"
    by simp
next
  fix c :: char and cs :: string
  show "(cs, c # cs) \<in> measure length"
    by simp
qed

definition clean_html :: "string \<Rightarrow> string" where
  "clean_html text =
     (if text = [] \<or> CHR ''<'' \<notin> set text then text
      else py_strip (py_replace ''&amp;'' ''&'' (py_replace ''&nbsp;'' '' '' (sub_tags text))))"

text \<open>
  \<open>re.search(r'CVE-\d{4}-\d{4,}', s)\<close>: the leftmost match, its last group of digits as
  long as possible.
\<close>

definition is_digit :: "char \<Rightarrow> bool" where
  "is_digit c \<longleftrightarrow> (48 \<le> (of_char c :: nat) \<and> (of_char c :: nat) \<le> 57)"

definition match_cve :: "string \<Rightarrow> string option" where
  "match_cve s =
     (let year = take 4 (drop 4 s); num = takeWhile is_digit (drop 9 s)
      in if take 4 s = ''CVE-'' \<and> length year = 4 \<and> list_all is_digit year
            \<and> take 1 (drop 8 s) = ''-'' \<and> 4 \<le> length num
         then Some (take 9 s @ num) else None)"

fun search_cve :: "string \<Rightarrow> string option" where
  "search_cve [] = None"
| "search_cve (c # cs) =
     (case match_cve (c # cs) of Some m \<Rightarrow> Some m | None \<Rightarrow> search_cve cs)"

text \<open>
  A timestamp: microseconds since 0001-01-01T00:00:00, which is \<open>datetime.min\<close>. A naive
  one has no offset; an aware one is held as its UTC instant. Python orders two naive
  or two aware values and raises \<open>TypeError\<close> when asked to order a naive and an aware
  one.
\<close>

datatype datetime = Naive nat | Aware int

definition datetime_min :: datetime where
  "datetime_min = Naive 0"

fun is_naive :: "datetime \<Rightarrow> bool" where
  "is_naive (Naive n) = True"
| "is_naive (Aware z) = False"

fun ord_key :: "datetime \<Rightarrow> int" where
  "ord_key (Naive n) = int n"
| "ord_key (Aware z) = z"

text \<open>
  The two functions of the \<open>datetime\<close> library that the module calls are parameters:
  \<open>datetime.fromisoformat\<close> (\<open>None\<close>: it raises \<open>ValueError\<close>) and
  \<open>datetime(*t).isoformat()\<close> on the first six fields of a time tuple (\<open>None\<close>: the
  constructor raises \<open>ValueError\<close> or \<open>TypeError\<close>).
\<close>

record pylib =
  fromisoformat :: "string \<Rightarrow> datetime option"
  isoformat6 :: "int list \<Rightarrow> string option"

text \<open>
  A feed entry as the feed parser delivers it: optional string fields and an optional
  time tuple. \<open>IllTyped\<close> is an entry on which a field access or a string operation
  raises.
\<close>

record feed_entry =
  e_title :: "string option"
  e_link :: "string option"
  e_summary :: "string option"
  e_description :: "string option"
  published_parsed :: "int list option"

datatype raw_entry = WellTyped feed_entry | IllTyped

text \<open>\<open>x or y\<close> on an optional string: \<open>None\<close> and the empty string are falsy.\<close>

definition py_or :: "string option \<Rightarrow> string \<Rightarrow> string" where
  "py_or x y = (case x of None \<Rightarrow> y | Some s \<Rightarrow> if s = [] then y else s)"

text \<open>\<open>xs[:n]\<close> for an integer \<open>n\<close>: a negative \<open>n\<close> counts from the end.\<close>

definition py_slice_to :: "int \<Rightarrow> 'a list \<Rightarrow> 'a list" where
  "py_slice_to n xs =
     (if 0 \<le> n then take (nat n) xs else take (nat (int (length xs) + n)) xs)"

definition parse_feed_entry :: "pylib \<Rightarrow> raw_entry \<Rightarrow> string \<Rightarrow> bool \<Rightarrow> news_item option" where
  "parse_feed_entry lib entry source_name is_cve =
     (case entry of
        IllTyped \<Rightarrow> None
      | WellTyped e \<Rightarrow>
          (let title_v = (case e_title e of None \<Rightarrow> ''Untitled'' | Some t \<Rightarrow> t);
               link_v = (case e_link e of None \<Rightarrow> [] | Some l \<Rightarrow> l);
               summary_v =
                 clean_html (py_or (e_summary e) (py_or (e_description e) ''No description available.''));
               date_str =
                 (case published_parsed e of
                    None \<Rightarrow> None
                  | Some t \<Rightarrow> if t = [] then None else isoformat6 lib (take 6 t))
           in Some
                \<lparr>title = title_v, link = link_v,
                 summary = (if length summary_v > 500 then take 500 summary_v else summary_v),
                 source = source_name, date = date_str,
                 type = (if is_cve then CVE else News),
                 cve_id = (if is_cve then search_cve (title_v @ '' '' @ link_v) else None),
                 cvss_score = None\<rparr>))"

section \<open>news\_fetcher.py: fetching\<close>

text \<open>
  The network. \<open>feedparser.parse(url)\<close> raises or gives the entries of the feed.
  The vulnerability API is asked for \<open>resultsPerPage\<close> results: \<open>requests.get\<close> raises,
  or the response has a status code and a body; \<open>response.json()\<close> raises on a body that
  is not JSON (\<open>BadJson\<close>), otherwise the body has its \<open>vulnerabilities\<close> list or lacks
  the key. \<open>as_completed\<close> gives the submitted fetches in the order they finish, a
  permutation of its argument. The date window of the request, the pauses between the
  vulnerability feeds and the log lines have no part in what is returned and are left
  out.
\<close>

datatype parse_result = ParseRaises string | Parsed "raw_entry list"

record description =
  lang :: "string option"
  value_str :: "string option"

record cve_data =
  id_str :: "string option"
  descriptions :: "description list"
  metrics :: "string \<Rightarrow> json_number option list option"
  published :: "string option"

text \<open>
  One element of \<open>vulnerabilities\<close>: ill-typed (handling it raises), or a record with or
  without its \<open>cve\<close> object.
\<close>

datatype raw_vuln = IllTypedVuln | Vuln "cve_data option"

datatype nvd_body = BadJson | Data "raw_vuln list option"

datatype nvd_reply = RequestRaises string | Response int nvd_body

record news_env =
  feedparser_parse :: "string \<Rightarrow> parse_result"
  requests_get :: "int \<Rightarrow> nvd_reply"
  as_completed :: "string list \<Rightarrow> string list"

definition NEWS_FEEDS :: "string list" where
  "NEWS_FEEDS =
     [''https://feeds.feedburner.com/TheHackersNews'',
      ''https://www.bleepingcomputer.com/feed/'',
      ''https://krebsonsecurity.com/feed/'',
      ''https://threatpost.com/feed/'',
      ''https://www.darkreading.com/rss.xml'',
      ''https://www.securityweek.com/rss'',
      ''https://www.infosecurity-magazine.com/rss/news/'',
      ''https://www.csoonline.com/index.rss'',
      ''https://www.zdnet.com/topic/security/rss.xml'',
      ''https://www.wired.com/feed/tag/security/latest/rss'',
      ''https://feeds.feedburner.com/SecurityFocus'',
      ''https://www.schneier.com/feed/'',
      ''https://www.theregister.com/security/headlines.atom'',
      ''https://www.cyberscoop.com/feed/'',
      ''https://www.cybersecurity-insiders.com/feed/'',
      ''https://www.securitymagazine.com/rss/topic/219-information-security'',
      ''https://www.helpnetsecurity.com/feed/'',
      ''https://www.securityaffairs.com/feed'',
      ''https://www.hackread.com/feed/'',
      ''https://www.securitynewspaper.com/feed/'']"

definition CVE_FEEDS :: "string list" where
  "CVE_FEEDS =
     [''https://nvd.nist.gov/feeds/xml/cve/misc/nvd-rss-analyzed.xml'',
      ''https://www.securityfocus.com/vulnerabilities/rss'']"

text \<open>\<open>url.split('/')[-1]\<close>: what follows the last slash.\<close>

definition last_segment :: "string \<Rightarrow> string" where
  "last_segment url = rev (takeWhile (\<lambda>c. c \<noteq> CHR ''/'') (rev url))"

definition news_source_name :: "string \<Rightarrow> string" where
  "news_source_name feed_url =
     py_replace ''.atom'' [] (py_replace ''.rss'' [] (py_replace ''.xml'' [] (last_segment feed_url)))"

definition cve_source_name :: "string \<Rightarrow> string" where
  "cve_source_name feed_url =
     (if CHR ''/'' \<in> set feed_url then last_segment feed_url else ''CVE Feed'')"

definition fetch_rss_feed ::
  "pylib \<Rightarrow> news_env \<Rightarrow> string \<Rightarrow> string \<Rightarrow> bool \<Rightarrow> int \<Rightarrow> news_item list" where
  "fetch_rss_feed lib env feed_url source_name is_cve max_items =
     (case feedparser_parse env feed_url of
        ParseRaises e \<Rightarrow> []
      | Parsed entries \<Rightarrow>
          List.map_filter (\<lambda>entry. parse_feed_entry lib entry source_name is_cve)
            (py_slice_to max_items entries))"

definition select_description :: "description list \<Rightarrow> string" where
  "select_description ds =
     (let dflt = ''No description available.'';
          d1 = (case find (\<lambda>d. lang d = Some ''en'') ds of
                  None \<Rightarrow> dflt
                | Some d \<Rightarrow> (case value_str d of None \<Rightarrow> dflt | Some v \<Rightarrow> v))
      in case ds of
           [] \<Rightarrow> dflt
         | d0 # _ \<Rightarrow> if d1 = dflt then (case value_str d0 of None \<Rightarrow> d1 | Some v \<Rightarrow> v) else d1)"

fun select_score :: "(string \<Rightarrow> json_number option list option) \<Rightarrow> string list \<Rightarrow> json_number option" where
  "select_score m [] = None"
| "select_score m (k # ks) =
     (case m k of
        Some (x # xs) \<Rightarrow> x
      | _ \<Rightarrow> select_score m ks)"

definition nvd_item :: "cve_data option \<Rightarrow> news_item" where
  "nvd_item cve =
     (let cve_id_v = (case cve of None \<Rightarrow> ''Unknown'' | Some c \<Rightarrow> (case id_str c of None \<Rightarrow> ''Unknown'' | Some i \<Rightarrow> i));
          desc = select_description (case cve of None \<Rightarrow> [] | Some c \<Rightarrow> descriptions c);
          score = (case cve of
                     None \<Rightarrow> None
                   | Some c \<Rightarrow> select_score (metrics c) [''cvssMetricV31'', ''cvssMetricV30'', ''cvssMetricV2''])
      in \<lparr>title = cve_id_v @ '': '' @ take 100 desc,
          link = ''https://nvd.nist.gov/vuln/detail/'' @ cve_id_v,
          summary = take 500 desc,
          source = ''NIST NVD'',
          date = (case cve of None \<Rightarrow> Some [] | Some c \<Rightarrow> (case published c of None \<Rightarrow> Some [] | Some p \<Rightarrow> Some p)),
          type = CVE,
          cve_id = Some cve_id_v,
          cvss_score = score\<rparr>)"

text \<open>
  The loop over the records: an exception while handling one record leaves the loop,
  and the items appended before it are returned.
\<close>

fun nvd_loop :: "raw_vuln list \<Rightarrow> news_item list" where
  "nvd_loop [] = []"
| "nvd_loop (IllTypedVuln # vs) = []"
| "nvd_loop (Vuln cve # vs) = nvd_item cve # nvd_loop vs"

definition fetch_nvd_cve_recent :: "news_env \<Rightarrow> int \<Rightarrow> news_item list" where
  "fetch_nvd_cve_recent env limit =
     (case requests_get env (min limit 20) of
        RequestRaises e \<Rightarrow> []
      | Response status_code body \<Rightarrow>
          (if status_code = 200 then
             (case body of
                BadJson \<Rightarrow> []
              | Data None \<Rightarrow> []
              | Data (Some vulnerabilities) \<Rightarrow> nvd_loop (py_slice_to limit vulnerabilities))
           else []))"

section \<open>news\_fetcher.py: ranking\<close>

datatype py_error = TypeError

definition get_sort_key :: "pylib \<Rightarrow> news_item \<Rightarrow> datetime" where
  "get_sort_key lib item =
     (case date item of
        None \<Rightarrow> datetime_min
      | Some date_str \<Rightarrow>
          (if date_str = [] then datetime_min
           else (case fromisoformat lib (py_replace ''Z'' ''+00:00'' date_str) of
                   Some d \<Rightarrow> d
                 | None \<Rightarrow> datetime_min)))"

text \<open>
  \<open>all_items.sort(key=get_sort_key, reverse=True)\<close>. The keys are computed first. The
  sort orders every pair of keys it needs, so it raises \<open>TypeError\<close> as soon as a naive
  and an aware key are both present; otherwise it is the stable sort, and with
  \<open>reverse=True\<close> the list is reversed, sorted ascending and reversed again, which
  keeps equal keys in their original order.
\<close>

definition sort_by_date :: "pylib \<Rightarrow> news_item list \<Rightarrow> py_error + news_item list" where
  "sort_by_date lib all_items =
     (let keys = map (get_sort_key lib) all_items
      in if list_ex is_naive keys \<and> list_ex (\<lambda>k. \<not> is_naive k) keys then Inl TypeError
         else Inr (rev (sort_key (\<lambda>item. ord_key (get_sort_key lib item)) (rev all_items))))"

text \<open>Lines 184-207 and 233-242: the items collected before the sort.\<close>

definition collect_news :: "pylib \<Rightarrow> news_env \<Rightarrow> bool \<Rightarrow> news_item list" where
  "collect_news lib env include_cves =
     concat (map (\<lambda>feed_url. fetch_rss_feed lib env feed_url (news_source_name feed_url) False 2)
               (as_completed env NEWS_FEEDS))
     @ (if include_cves
        then concat (map (\<lambda>feed_url. fetch_rss_feed lib env feed_url (cve_source_name feed_url) True 2)
                       CVE_FEEDS)
             @ fetch_nvd_cve_recent env 3
        else [])"

definition collect_cves :: "pylib \<Rightarrow> news_env \<Rightarrow> int \<Rightarrow> news_item list" where
  "collect_cves lib env limit =
     concat (map (\<lambda>feed_url. fetch_rss_feed lib env feed_url (cve_source_name feed_url) True 3)
               CVE_FEEDS)
     @ fetch_nvd_cve_recent env limit"

definition get_latest_news ::
  "pylib \<Rightarrow> news_env \<Rightarrow> int \<Rightarrow> bool \<Rightarrow> py_error + news_item list" where
  "get_latest_news lib env limit include_cves =
     (case sort_by_date lib (collect_news lib env include_cves) of
        Inl e \<Rightarrow> Inl e
      | Inr sorted_items \<Rightarrow> Inr (py_slice_to limit sorted_items))"

definition get_cves_only :: "pylib \<Rightarrow> news_env \<Rightarrow> int \<Rightarrow> py_error + news_item list" where
  "get_cves_only lib env limit =
     (case sort_by_date lib (collect_cves lib env limit) of
        Inl e \<Rightarrow> Inl e
      | Inr sorted_items \<Rightarrow> Inr (py_slice_to limit sorted_items))"

section \<open>ai\_insight.py: the retry wrapper around the AI call\<close>

text \<open>
  The strings returned to the caller are fixed literals (with non-ASCII symbols); they
  are named here. \<open>ServiceError\<close> carries \<open>error_str[:200]\<close>.
\<close>

datatype message =
    NotConfigured
  | Overloaded
  | AuthFailed
  | RateLimited
  | ServiceError string
  | FailedAfterRetries

datatype 'j outcome = Ideas 'j | Message message

text \<open>
  What the function does to the world: the \<open>genai.Client()\<close> constructions (one per
  attempt), the \<open>generate_content\<close> calls, and the \<open>time.sleep\<close> calls in order.
\<close>

record effects =
  clients :: nat
  calls :: nat
  sleeps :: "int list"

definition no_effects :: effects where
  "no_effects = \<lparr>clients = 0, calls = 0, sleeps = []\<rparr>"

text \<open>
  The environment: \<open>os.getenv("GEMINI_API_KEY")\<close>; \<open>genai.Client()\<close> at the k-th
  attempt (\<open>Some e\<close>: it raises, \<open>e\<close> is \<open>str\<close> of the exception);
  \<open>generate_content\<close> at the k-th attempt on the prompt (\<open>Inl e\<close>: it raises;
  \<open>Inr t\<close>: \<open>response.text\<close>, which the library may leave \<open>None\<close>); and
  \<open>json.loads\<close> (\<open>Inl e\<close>: \<open>JSONDecodeError\<close> with text \<open>e\<close>).
\<close>

record 'j ai_env =
  api_key :: "string option"
  client_ctor :: "nat \<Rightarrow> string option"
  generate_content :: "nat \<Rightarrow> string \<Rightarrow> string + string option"
  json_loads :: "string \<Rightarrow> string + 'j"

definition newline :: string where
  "newline = [CHR 0x0A]"

definition article_text :: "nat \<Rightarrow> news_item \<Rightarrow> string" where
  "article_text i item =
     ''Article '' @ show_nat (i + 1) @ '':'' @ newline @
     ''Title: '' @ title item @ newline @
     ''Link: '' @ link item @ newline @
     ''Summary: '' @ summary item"

fun py_join :: "string \<Rightarrow> string list \<Rightarrow> string" where
  "py_join sep [] = []"
| "py_join sep [x] = x"
| "py_join sep (x # y # ys) = x @ sep @ py_join sep (y # ys)"

text \<open>
  \<open>news_text\<close>, the only part of the prompt that depends on the input; the fixed
  instruction text around it is the same at every attempt and is left out.
\<close>

definition news_text :: "news_item list \<Rightarrow> string" where
  "news_text news_items =
     py_join (newline @ newline) (map (\<lambda>(i, item). article_text i item) (enumerate 0 news_items))"

definition fence :: string where
  "fence = replicate 3 (CHR 0x60)"

definition none_type_error :: string where
  "none_type_error = ''the JSON object must be str, bytes or bytearray, not NoneType''"

text \<open>
  Lines 80-84: \<open>json.loads(response.text)\<close>; on \<open>JSONDecodeError\<close> the code fences are
  removed and the text is parsed once more, and that second error is not caught here.
  \<open>json.loads(None)\<close> raises \<open>TypeError\<close>, which the inner handler does not catch.
\<close>

definition parse_response :: "(string \<Rightarrow> string + 'j) \<Rightarrow> string option \<Rightarrow> string + 'j" where
  "parse_response loads txt =
     (case txt of
        None \<Rightarrow> Inl none_type_error
      | Some t \<Rightarrow>
          (case loads t of
             Inr v \<Rightarrow> Inr v
           | Inl _ \<Rightarrow> loads (py_strip (py_replace fence '''' (py_replace (fence @ ''json'') '''' t)))))"

text \<open>
  The body of the \<open>try\<close> at attempt number \<open>k\<close>: \<open>Inl e\<close> when it raises, with
  \<open>e = str(exception)\<close>, and the effects it has had by then.
\<close>

definition run_attempt ::
  "'j ai_env \<Rightarrow> news_item list \<Rightarrow> nat \<Rightarrow> effects \<Rightarrow> (string + 'j) \<times> effects" where
  "run_attempt env news_items k fx =
     (let fx1 = fx\<lparr>clients := clients fx + 1\<rparr>
      in case client_ctor env k of
           Some e \<Rightarrow> (Inl e, fx1)
         | None \<Rightarrow>
             (let fx2 = fx1\<lparr>calls := calls fx1 + 1\<rparr>
              in case generate_content env k (news_text news_items) of
                   Inl e \<Rightarrow> (Inl e, fx2)
                 | Inr txt \<Rightarrow> (parse_response (json_loads env) txt, fx2)))"

datatype action = Retry int | Return message

definition is_overload :: "string \<Rightarrow> bool" where
  "is_overload error_str \<longleftrightarrow>
     sublist ''503'' error_str \<or> sublist ''UNAVAILABLE'' error_str
     \<or> sublist ''overloaded'' (py_lower error_str)"

definition is_auth :: "string \<Rightarrow> bool" where
  "is_auth error_str \<longleftrightarrow>
     sublist ''401'' error_str \<or> sublist ''403'' error_str
     \<or> sublist ''API key'' (py_lower error_str)"

definition is_rate_limit :: "string \<Rightarrow> bool" where
  "is_rate_limit error_str \<longleftrightarrow>
     sublist ''429'' error_str \<or> sublist ''rate limit'' (py_lower error_str)"

text \<open>The \<open>except Exception as e\<close> handler, lines 86-108.\<close>

definition on_exception :: "int \<Rightarrow> int \<Rightarrow> string \<Rightarrow> action" where
  "on_exception attempt max_retries error_str =
     (if is_overload error_str then
        (if attempt < max_retries then Retry ((attempt + 1) * 2) else Return Overloaded)
      else if is_auth error_str then Return AuthFailed
      else if is_rate_limit error_str then Return RateLimited
      else
        (if attempt < max_retries then Retry 1
         else Return (ServiceError (take 200 error_str))))"

text \<open>The \<open>for attempt in range(max_retries + 1)\<close> loop over the remaining attempts.\<close>

fun attempts_loop ::
  "'j ai_env \<Rightarrow> news_item list \<Rightarrow> int \<Rightarrow> int list \<Rightarrow> effects \<Rightarrow> 'j outcome \<times> effects" where
  "attempts_loop env news_items max_retries [] fx = (Message FailedAfterRetries, fx)"
| "attempts_loop env news_items max_retries (attempt # rest) fx =
     (case run_attempt env news_items (nat attempt) fx of
        (Inr v, fx') \<Rightarrow> (Ideas v, fx')
      | (Inl e, fx') \<Rightarrow>
          (case on_exception attempt max_retries e of
             Return m \<Rightarrow> (Message m, fx')
           | Retry s \<Rightarrow>
               attempts_loop env news_items max_retries rest (fx'\<lparr>sleeps := sleeps fx' @ [s]\<rparr>)))"

definition analyze_news_for_ideas ::
  "'j ai_env \<Rightarrow> news_item list \<Rightarrow> int \<Rightarrow> 'j outcome \<times> effects" where
  "analyze_news_for_ideas env news_items max_retries =
     (if api_key env = None \<or> api_key env = Some []
      then (Message NotConfigured, no_effects)
      else attempts_loop env news_items max_retries [0..max_retries] no_effects)"

section \<open>Example environments\<close>

text \<open>
  A finite piece of the two library functions, each entry as the library computes it
  (timestamps in microseconds since \<open>datetime.min\<close>).
\<close>

definition example_lib :: pylib where
  "example_lib =
     \<lparr>fromisoformat =
        map_of
          [(''0001-01-01T00:00:00'', Naive 0),
           (''2024-04-01T00:00:00'', Naive 63847526400000000),
           (''2024-05-01T12:00:00'', Naive 63850161600000000),
           (''2024-05-01T12:00:00+00:00'', Aware 63850161600000000)],
      isoformat6 =
        map_of
          [([2024, 4, 1, 0, 0, 0], ''2024-04-01T00:00:00''),
           ([2024, 5, 1, 12, 0, 0], ''2024-05-01T12:00:00'')]\<rparr>"

definition plain_entry :: "string \<Rightarrow> int list option \<Rightarrow> raw_entry" where
  "plain_entry t p =
     WellTyped \<lparr>e_title = Some t, e_link = Some ''https://example.org/'', e_summary = Some ''text'',
                e_description = None, published_parsed = p\<rparr>"

definition plain_cve :: "string \<Rightarrow> string option \<Rightarrow> raw_vuln" where
  "plain_cve i p =
     Vuln (Some \<lparr>id_str = Some i, descriptions = [], metrics = (\<lambda>k. None), published = p\<rparr>)"

definition feed_item :: "string \<Rightarrow> string option \<Rightarrow> news_item" where
  "feed_item t d =
     \<lparr>title = t, link = ''https://example.org/'', summary = ''text'', source = ''rss'',
      date = d, type = CVE, cve_id = None, cvss_score = None\<rparr>"

definition api_item :: "string \<Rightarrow> string \<Rightarrow> news_item" where
  "api_item i d =
     \<lparr>title = i @ '': No description available.'',
      link = ''https://nvd.nist.gov/vuln/detail/'' @ i,
      summary = ''No description available.'', source = ''NIST NVD'',
      date = Some d, type = CVE, cve_id = Some i, cvss_score = None\<rparr>"

text \<open>
  Every feed is unreachable but the second vulnerability feed, which has the entries
  \<open>es\<close>; the vulnerability API answers 200 with the records \<open>vs n\<close> when asked for \<open>n\<close>
  results per page.
\<close>

definition one_feed_env :: "raw_entry list \<Rightarrow> (int \<Rightarrow> raw_vuln list) \<Rightarrow> news_env" where
  "one_feed_env es vs =
     \<lparr>feedparser_parse =
        (\<lambda>url. if url = ''https://www.securityfocus.com/vulnerabilities/rss'' then Parsed es
               else ParseRaises ''urlopen error''),
      requests_get = (\<lambda>n. Response 200 (Data (Some (vs n)))),
      as_completed = (\<lambda>urls. urls)\<rparr>"

definition long_entry :: raw_entry where
  "long_entry =
     WellTyped \<lparr>e_title = Some ''Long'', e_link = None, e_summary = Some (replicate 600 (CHR ''a'')),
                e_description = None, published_parsed = None\<rparr>"

definition sentinel_env :: news_env where
  "sentinel_env =
     one_feed_env [plain_entry ''Advisory'' None]
       (\<lambda>n. [plain_cve ''CVE-2024-0001'' (Some ''0001-01-01T00:00:00'')])"

definition offset_dates_env :: news_env where
  "offset_dates_env =
     one_feed_env [plain_entry ''Advisory'' None]
       (\<lambda>n. [plain_cve ''CVE-2024-0001'' (Some ''2024-05-01T12:00:00Z'')])"

definition dated_env :: news_env where
  "dated_env =
     one_feed_env [plain_entry ''Undated'' None, plain_entry ''April'' (Some [2024, 4, 1, 0, 0, 0, 0, 92, 0])]
       (\<lambda>n. [plain_cve ''CVE-2024-0001'' (Some ''2024-05-01T12:00:00'')])"

definition busy_cve_env :: news_env where
  "busy_cve_env =
     one_feed_env [plain_entry ''One'' None, plain_entry ''Two'' None, plain_entry ''Three'' None, plain_entry ''Four'' None]
       (\<lambda>n. if n = 10
            then [plain_cve ''CVE-2024-0001'' None, plain_cve ''CVE-2024-0002'' None,
                  plain_cve ''CVE-2024-0003'' None, plain_cve ''CVE-2024-0004'' None]
            else [])"

definition overloaded_env :: "string ai_env" where
  "overloaded_env =
     \<lparr>api_key = Some ''secret'', client_ctor = (\<lambda>k. None),
      generate_content = (\<lambda>k prompt. Inl ''503 UNAVAILABLE''),
      json_loads = (\<lambda>s. Inr s)\<rparr>"

definition auth_env :: "string ai_env" where
  "auth_env =
     \<lparr>api_key = Some ''secret'', client_ctor = (\<lambda>k. None),
      generate_content = (\<lambda>k prompt. Inl ''API key invalid (401)''),
      json_loads = (\<lambda>s. Inr s)\<rparr>"

definition mixed_error :: string where
  "mixed_error = ''503 UNAVAILABLE: API key rejected (401), 429 rate limit''"

definition mixed_env :: "string ai_env" where
  "mixed_env =
     \<lparr>api_key = Some ''secret'', client_ctor = (\<lambda>k. None),
      generate_content = (\<lambda>k prompt. if k = 0 then Inl mixed_error else Inr (Some ''[]'')),
      json_loads = (\<lambda>s. Inr s)\<rparr>"

definition no_key_env :: "string ai_env" where
  "no_key_env =
     \<lparr>api_key = None, client_ctor = (\<lambda>k. None),
      generate_content = (\<lambda>k prompt. Inr (Some ''[]'')),
      json_loads = (\<lambda>s. Inr s)\<rparr>"

definition api_key_text :: string where
  "api_key_text = ''API key not valid. Please pass a valid API key.''"

definition api_key_text_env :: "string ai_env" where
  "api_key_text_env =
     \<lparr>api_key = Some ''secret'', client_ctor = (\<lambda>k. None),
      generate_content = (\<lambda>k prompt. Inl api_key_text),
      json_loads = (\<lambda>s. Inr s)\<rparr>"

section \<open>The retry wrapper: one attempt and the loop\<close>

lemma fst_run_attempt: "fst (run_attempt env items k fx) = fst (run_attempt env items k no_effects)"
  by (simp add: run_attempt_def Let_def split: option.splits sum.splits)

lemma clients_run_attempt: "clients (snd (run_attempt env items k fx)) = clients fx + 1"
  by (simp add: run_attempt_def Let_def split: option.splits sum.splits)

lemma sleeps_run_attempt: "sleeps (snd (run_attempt env items k fx)) = sleeps fx"
  by (simp add: run_attempt_def Let_def split: option.splits sum.splits)

lemma calls_run_attempt: "calls (snd (run_attempt env items k fx)) \<le> calls fx + 1"
  by (simp add: run_attempt_def Let_def split: option.splits sum.splits)

lemma loop_clients_bound:
  "clients (snd (attempts_loop env items mr as fx)) \<le> clients fx + length as"
proof (induction as arbitrary: fx)
  case Nil
  show ?case by simp
next
  case (Cons a as)
  obtain r fx' where ra: "run_attempt env items (nat a) fx = (r, fx')"
    by (cases "run_attempt env items (nat a) fx")
  have c: "clients fx' = clients fx + 1"
    using clients_run_attempt [of env items "nat a" fx] ra by simp
  show ?case
  proof (cases r)
    case (Inr v)
    with ra c show ?thesis by simp
  next
    case (Inl e)
    show ?thesis
    proof (cases "on_exception a mr e")
      case (Return m)
      with ra Inl c show ?thesis by simp
    next
      case (Retry s)
      have "clients (snd (attempts_loop env items mr as (fx'\<lparr>sleeps := sleeps fx' @ [s]\<rparr>)))
              \<le> clients (fx'\<lparr>sleeps := sleeps fx' @ [s]\<rparr>) + length as"
        by (rule Cons.IH)
      with ra Inl Retry c show ?thesis by simp
    qed
  qed
qed

lemma upto_0_2: "[0..2::int] = [0, 1, 2]"
  by code_simp

lemma loop_overload_step:
  assumes "fst (run_attempt env items (nat a) no_effects) = Inl e" "is_overload e" "a < mr"
  shows "attempts_loop env items mr (a # rest) fx =
         attempts_loop env items mr rest
           ((snd (run_attempt env items (nat a) fx))\<lparr>sleeps := sleeps fx @ [(a + 1) * 2]\<rparr>)"
proof -
  obtain r fx' where ra: "run_attempt env items (nat a) fx = (r, fx')"
    by (cases "run_attempt env items (nat a) fx")
  have "r = Inl e" using fst_run_attempt [of env items "nat a" fx] ra assms(1) by simp
  moreover have "sleeps fx' = sleeps fx" using sleeps_run_attempt [of env items "nat a" fx] ra by simp
  ultimately show ?thesis using ra assms(2,3) by (simp add: on_exception_def)
qed

lemma loop_overload_last:
  assumes "fst (run_attempt env items (nat a) no_effects) = Inl e" "is_overload e" "\<not> a < mr"
  shows "attempts_loop env items mr (a # rest) fx =
         (Message Overloaded, snd (run_attempt env items (nat a) fx))"
proof -
  obtain r fx' where ra: "run_attempt env items (nat a) fx = (r, fx')"
    by (cases "run_attempt env items (nat a) fx")
  have "r = Inl e" using fst_run_attempt [of env items "nat a" fx] ra assms(1) by simp
  then show ?thesis using ra assms(2,3) by (simp add: on_exception_def)
qed

lemma upto_from_0: "0 \<le> mr \<Longrightarrow> [0..mr] = 0 # [1..mr]"
  by (simp add: upto_rec1)

text \<open>
  The third test of the authentication branch looks for \<open>"API key"\<close>, which has capital
  letters, in the lower-cased error text, so it never holds: an error is classified as
  an authentication failure by \<open>401\<close> or \<open>403\<close> alone.
\<close>

lemma py_lower_char_not_A: "py_lower_char c \<noteq> CHR ''A''"
proof -
  let ?n = "of_char c :: nat"
  have lt: "?n < 256" by simp
  show ?thesis
  proof (cases "(65 \<le> ?n \<and> ?n \<le> 90) \<or> (192 \<le> ?n \<and> ?n \<le> 222 \<and> ?n \<noteq> 215)")
    case True
    then have "py_lower_char c = char_of (?n + 32)"
      by (simp add: py_lower_char_def Let_def)
    moreover have "(of_char (char_of (?n + 32) :: char) :: nat) = ?n + 32"
      using True by (auto simp: of_char_of)
    ultimately have "(of_char (py_lower_char c) :: nat) \<noteq> 65"
      using True by auto
    then show ?thesis by auto
  next
    case False
    then have "py_lower_char c = c" and "?n \<noteq> 65"
      by (auto simp: py_lower_char_def Let_def)
    then show ?thesis by auto
  qed
qed

lemma api_key_signal_dead: "\<not> sublist ''API key'' (py_lower error_str)"
proof
  assume "sublist ''API key'' (py_lower error_str)"
  then have "set ''API key'' \<subseteq> set (py_lower error_str)"
    by (rule set_mono_sublist)
  then have "CHR ''A'' \<in> set (py_lower error_str)"
    by simp
  then obtain x where "py_lower_char x = CHR ''A''"
    by (auto simp: py_lower_def)
  then show False
    using py_lower_char_not_A by blast
qed

lemma is_auth_iff: "is_auth error_str \<longleftrightarrow> sublist ''401'' error_str \<or> sublist ''403'' error_str"
  by (simp add: is_auth_def api_key_signal_dead)

text \<open>
  C8. With no credential configured (\<open>os.getenv\<close> gives \<open>None\<close> or the empty string)
  \<open>analyze_news_for_ideas\<close> returns the configuration-error string at once, for every
  list of news items and every \<open>max_retries\<close>: no client is constructed, no request is
  sent and nothing sleeps.
\<close>

theorem no_credential_short_circuit:
  "api_key env = None \<or> api_key env = Some [] \<Longrightarrow>
     fst (analyze_news_for_ideas env news_items max_retries) = Message NotConfigured
     \<and> clients (snd (analyze_news_for_ideas env news_items max_retries)) = 0
     \<and> calls (snd (analyze_news_for_ideas env news_items max_retries)) = 0
     \<and> sleeps (snd (analyze_news_for_ideas env news_items max_retries)) = []"
  by (auto simp: analyze_news_for_ideas_def no_effects_def)

theorem no_credential_short_circuit_witness:
  "api_key no_key_env = None
   \<and> analyze_news_for_ideas no_key_env [] 2 = (Message NotConfigured, \<lparr>clients = 0, calls = 0, sleeps = []\<rparr>)"
proof -
  have k: "api_key no_key_env = None \<or> api_key no_key_env = Some []"
    by (simp add: no_key_env_def)
  show ?thesis
    using no_credential_short_circuit [OF k, of "[]" 2] k
    by (simp add: no_key_env_def prod_eq_iff)
qed

text \<open>
  C3. With \<open>max_retries = 2\<close> there are at most 3 attempts, whatever the environment
  does. When each of the three attempts raises an error classified as overload, the
  function sleeps 2 and then 4 seconds (\<open>(attempt + 1) * 2\<close>) between them and returns
  the "service overloaded" string after the third attempt.
\<close>

theorem retry_bound_overload:
  "clients (snd (analyze_news_for_ideas env news_items 2)) \<le> 3
   \<and> (api_key env \<noteq> None \<and> api_key env \<noteq> Some []
        \<and> (\<forall>k \<in> {0, 1, 2}. \<exists>e. fst (run_attempt env news_items k no_effects) = Inl e \<and> is_overload e)
      \<longrightarrow> fst (analyze_news_for_ideas env news_items 2) = Message Overloaded
          \<and> sleeps (snd (analyze_news_for_ideas env news_items 2)) = [2, 4]
          \<and> clients (snd (analyze_news_for_ideas env news_items 2)) = 3)"
proof (intro conjI impI)
  have "clients (snd (attempts_loop env news_items 2 [0..2] no_effects))
          \<le> clients no_effects + length [0..2::int]"
    by (rule loop_clients_bound)
  then show "clients (snd (analyze_news_for_ideas env news_items 2)) \<le> 3"
    by (simp add: analyze_news_for_ideas_def upto_0_2 no_effects_def)
next
  assume h: "api_key env \<noteq> None \<and> api_key env \<noteq> Some []
        \<and> (\<forall>k \<in> {0, 1, 2}. \<exists>e. fst (run_attempt env news_items k no_effects) = Inl e \<and> is_overload e)"
  obtain e0 e1 e2 where
    e0: "fst (run_attempt env news_items (nat 0) no_effects) = Inl e0" "is_overload e0" and
    e1: "fst (run_attempt env news_items (nat 1) no_effects) = Inl e1" "is_overload e1" and
    e2: "fst (run_attempt env news_items (nat 2) no_effects) = Inl e2" "is_overload e2"
    using h by auto
  let ?f1 = "(snd (run_attempt env news_items (nat 0) no_effects))\<lparr>sleeps := sleeps no_effects @ [(0 + 1) * 2]\<rparr>"
  let ?f2 = "(snd (run_attempt env news_items (nat 1) ?f1))\<lparr>sleeps := sleeps ?f1 @ [(1 + 1) * 2]\<rparr>"
  let ?f3 = "snd (run_attempt env news_items (nat 2) ?f2)"
  have s1: "attempts_loop env news_items 2 [0, 1, 2] no_effects = attempts_loop env news_items 2 [1, 2] ?f1"
    by (rule loop_overload_step [OF e0]) simp
  have s2: "attempts_loop env news_items 2 [1, 2] ?f1 = attempts_loop env news_items 2 [2] ?f2"
    by (rule loop_overload_step [OF e1]) simp
  have s3: "attempts_loop env news_items 2 [2] ?f2 = (Message Overloaded, ?f3)"
    by (rule loop_overload_last [OF e2]) simp
  have r: "analyze_news_for_ideas env news_items 2 = (Message Overloaded, ?f3)"
    using h s1 s2 s3 by (simp add: analyze_news_for_ideas_def upto_0_2)
  have c: "clients ?f3 = 3"
    by (simp add: clients_run_attempt no_effects_def)
  have s: "sleeps ?f3 = [2, 4]"
    by (simp add: sleeps_run_attempt no_effects_def)
  show "fst (analyze_news_for_ideas env news_items 2) = Message Overloaded"
    "sleeps (snd (analyze_news_for_ideas env news_items 2)) = [2, 4]"
    "clients (snd (analyze_news_for_ideas env news_items 2)) = 3"
    using r c s by simp_all
qed

theorem retry_bound_overload_witness:
  "api_key overloaded_env \<noteq> None \<and> api_key overloaded_env \<noteq> Some []
   \<and> fst (run_attempt overloaded_env [] 0 no_effects) = Inl ''503 UNAVAILABLE''
   \<and> fst (run_attempt overloaded_env [] 1 no_effects) = Inl ''503 UNAVAILABLE''
   \<and> fst (run_attempt overloaded_env [] 2 no_effects) = Inl ''503 UNAVAILABLE''
   \<and> is_overload ''503 UNAVAILABLE''
   \<and> fst (analyze_news_for_ideas overloaded_env [] 2) = Message Overloaded
   \<and> sleeps (snd (analyze_news_for_ideas overloaded_env [] 2)) = [2, 4]
   \<and> clients (snd (analyze_news_for_ideas overloaded_env [] 2)) = 3"
proof -
  have k: "api_key overloaded_env \<noteq> None \<and> api_key overloaded_env \<noteq> Some []"
    by (simp add: overloaded_env_def)
  have r: "fst (run_attempt overloaded_env [] k no_effects) = Inl ''503 UNAVAILABLE''" for k
    by (simp add: run_attempt_def overloaded_env_def)
  have o: "is_overload ''503 UNAVAILABLE''"
    by code_simp
  have a: "\<forall>k \<in> {0, 1, 2}. \<exists>e. fst (run_attempt overloaded_env [] k no_effects) = Inl e \<and> is_overload e"
    using r o by simp
  show ?thesis
    using retry_bound_overload [of overloaded_env "[]"] k a r o by blast
qed

text \<open>
  The branches for \<open>401\<close>, \<open>403\<close> and the rate limit. An error that is not classified
  as overload and that the handler classifies as an authentication failure or as a
  rate limit ends the loop at that attempt: the corresponding string is returned, the
  attempt is the last one (one more client, no further iteration whatever attempts
  remain) and no sleep is added. At the first attempt of a configured call this is
  exactly one attempt and no sleep.
\<close>

theorem auth_rate_limit_no_retry:
  assumes e: "fst (run_attempt env news_items (nat attempt) no_effects) = Inl e"
    and no: "\<not> is_overload e"
    and ar: "is_auth e \<or> is_rate_limit e"
  shows "attempts_loop env news_items max_retries (attempt # rest) fx =
           (Message (if is_auth e then AuthFailed else RateLimited),
            snd (run_attempt env news_items (nat attempt) fx))
         \<and> clients (snd (attempts_loop env news_items max_retries (attempt # rest) fx)) = clients fx + 1
         \<and> sleeps (snd (attempts_loop env news_items max_retries (attempt # rest) fx)) = sleeps fx
         \<and> (attempt = 0 \<and> 0 \<le> max_retries \<and> api_key env \<noteq> None \<and> api_key env \<noteq> Some [] \<longrightarrow>
              fst (analyze_news_for_ideas env news_items max_retries)
                = Message (if is_auth e then AuthFailed else RateLimited)
              \<and> clients (snd (analyze_news_for_ideas env news_items max_retries)) = 1
              \<and> sleeps (snd (analyze_news_for_ideas env news_items max_retries)) = [])"
proof -
  have step: "attempts_loop env news_items max_retries (attempt # rest') fx' =
           (Message (if is_auth e then AuthFailed else RateLimited),
            snd (run_attempt env news_items (nat attempt) fx'))" for rest' fx'
  proof -
    obtain r f where ra: "run_attempt env news_items (nat attempt) fx' = (r, f)"
      by (cases "run_attempt env news_items (nat attempt) fx'")
    have "r = Inl e"
      using fst_run_attempt [of env news_items "nat attempt" fx'] ra e by simp
    then show ?thesis
      using ra no ar by (cases "is_auth e") (simp_all add: on_exception_def)
  qed
  have a: "attempt = 0 \<and> 0 \<le> max_retries \<and> api_key env \<noteq> None \<and> api_key env \<noteq> Some [] \<Longrightarrow>
      analyze_news_for_ideas env news_items max_retries =
        (Message (if is_auth e then AuthFailed else RateLimited),
         snd (run_attempt env news_items (nat attempt) no_effects))"
    using step [of "[1..max_retries]" no_effects]
    by (simp add: analyze_news_for_ideas_def upto_from_0)
  show ?thesis
    using step [of rest fx] a
    by (simp add: clients_run_attempt sleeps_run_attempt no_effects_def)
qed

theorem auth_rate_limit_no_retry_witness:
  "fst (run_attempt auth_env [] (nat 0) no_effects) = Inl ''API key invalid (401)''
   \<and> \<not> is_overload ''API key invalid (401)''
   \<and> (is_auth ''API key invalid (401)'' \<or> is_rate_limit ''API key invalid (401)'')
   \<and> fst (analyze_news_for_ideas auth_env [] 2) = Message AuthFailed
   \<and> clients (snd (analyze_news_for_ideas auth_env [] 2)) = 1
   \<and> sleeps (snd (analyze_news_for_ideas auth_env [] 2)) = []"
proof -
  have e: "fst (run_attempt auth_env [] (nat 0) no_effects) = Inl ''API key invalid (401)''"
    by (simp add: run_attempt_def auth_env_def)
  have no: "\<not> is_overload ''API key invalid (401)''"
    by code_simp
  have au: "is_auth ''API key invalid (401)''"
    by code_simp
  have k: "api_key auth_env \<noteq> None \<and> api_key auth_env \<noteq> Some []"
    by (simp add: auth_env_def)
  show ?thesis
    using auth_rate_limit_no_retry [OF e no, of 2 "[]" no_effects] e no au k by simp
qed

text \<open>
  C7. An authentication or credential failure is to end the call at once. The handler
  recognises one by \<open>401\<close> or \<open>403\<close> only: its test for \<open>"API key"\<close> is made on the
  lower-cased text and never holds. A credential error that says \<open>API key not valid\<close>
  and carries no status code is therefore handled as an unknown error: it is retried
  at each of the three attempts with a sleep of one second in between, and the raw
  error text is returned.
\<close>

theorem api_key_error_is_retried:
  "sublist ''API key'' api_key_text
   \<and> \<not> is_auth api_key_text
   \<and> on_exception 0 2 api_key_text = Retry 1
   \<and> analyze_news_for_ideas api_key_text_env [] 2 =
       (Message (ServiceError api_key_text), \<lparr>clients = 3, calls = 3, sleeps = [1, 1]\<rparr>)"
proof -
  have s: "sublist ''API key'' api_key_text"
    by code_simp
  have c: "\<not> is_overload api_key_text" "\<not> is_auth api_key_text" "\<not> is_rate_limit api_key_text"
    by code_simp+
  have t: "take 200 api_key_text = api_key_text"
    by (simp add: api_key_text_def)
  have o: "on_exception 0 2 api_key_text = Retry 1" "on_exception 1 2 api_key_text = Retry 1"
    "on_exception 2 2 api_key_text = Return (ServiceError api_key_text)"
    by (simp_all add: on_exception_def c t)
  have k: "api_key api_key_text_env = Some ''secret''"
    by (simp add: api_key_text_env_def)
  have r: "run_attempt api_key_text_env [] n fx =
             (Inl api_key_text, fx\<lparr>clients := clients fx + 1, calls := calls fx + 1\<rparr>)" for n fx
    by (simp add: run_attempt_def api_key_text_env_def)
  have "analyze_news_for_ideas api_key_text_env [] 2 =
       (Message (ServiceError api_key_text), \<lparr>clients = 3, calls = 3, sleeps = [1, 1]\<rparr>)"
    by (simp add: analyze_news_for_ideas_def k upto_0_2 r o no_effects_def)
  with s c(2) o(1) show ?thesis
    by (intro conjI)
qed

text \<open>
  C10. The overload test comes first in the handler: an error with an overload signal
  is handled as transient whatever else its text contains, in particular when it also
  carries an authentication or a rate-limit signal. It is retried after
  \<open>(attempt + 1) * 2\<close> seconds while attempts remain, and gives the "service overloaded"
  string at the last attempt; the authentication and rate-limit strings are never
  returned for it.
\<close>

theorem overload_checked_first:
  assumes ov: "is_overload e"
  shows "on_exception attempt max_retries e =
           (if attempt < max_retries then Retry ((attempt + 1) * 2) else Return Overloaded)
         \<and> on_exception attempt max_retries e \<noteq> Return AuthFailed
         \<and> on_exception attempt max_retries e \<noteq> Return RateLimited
         \<and> (fst (run_attempt env news_items (nat attempt) no_effects) = Inl e \<longrightarrow>
              attempts_loop env news_items max_retries (attempt # rest) fx =
                (if attempt < max_retries
                 then attempts_loop env news_items max_retries rest
                        ((snd (run_attempt env news_items (nat attempt) fx))
                           \<lparr>sleeps := sleeps fx @ [(attempt + 1) * 2]\<rparr>)
                 else (Message Overloaded, snd (run_attempt env news_items (nat attempt) fx))))"
  using ov loop_overload_step [of env news_items attempt e max_retries rest fx]
    loop_overload_last [of env news_items attempt e max_retries rest fx]
  by (simp add: on_exception_def)

theorem overload_checked_first_witness:
  "is_overload mixed_error \<and> is_auth mixed_error \<and> is_rate_limit mixed_error
   \<and> on_exception 0 2 mixed_error = Retry 2
   \<and> fst (run_attempt mixed_env [] (nat 0) no_effects) = Inl mixed_error
   \<and> analyze_news_for_ideas mixed_env [] 2 = (Ideas ''[]'', \<lparr>clients = 2, calls = 2, sleeps = [2]\<rparr>)"
proof -
  have ov: "is_overload mixed_error"
    by code_simp
  have au: "is_auth mixed_error"
    by code_simp
  have rl: "is_rate_limit mixed_error"
    by code_simp
  have e: "fst (run_attempt mixed_env [] (nat 0) no_effects) = Inl mixed_error"
    by (simp add: run_attempt_def mixed_env_def)
  have u: "[0..2::int] = [0, 1, 2]"
    by code_simp
  have nxt: "attempts_loop mixed_env [] 2 [1, 2] \<lparr>clients = 1, calls = 1, sleeps = [2]\<rparr>
               = (Ideas ''[]'', \<lparr>clients = 2, calls = 2, sleeps = [2]\<rparr>)"
    by (simp add: run_attempt_def mixed_env_def parse_response_def)
  have fx: "(snd (run_attempt mixed_env [] (nat 0) no_effects))\<lparr>sleeps := sleeps no_effects @ [(0 + 1) * 2]\<rparr>
              = \<lparr>clients = 1, calls = 1, sleeps = [2]\<rparr>"
    by (simp add: run_attempt_def mixed_env_def no_effects_def)
  show ?thesis
    using overload_checked_first [OF ov, where attempt = 0 and max_retries = 2 and env = mixed_env
        and news_items = "[]" and rest = "[1, 2]" and fx = no_effects] ov au rl e u nxt fx
    by (simp add: analyze_news_for_ideas_def mixed_env_def)
qed

section \<open>Cleaning: replacing and stripping\<close>




lemma replace_id: "\<not> sublist old s \<Longrightarrow> py_replace old new s = s"
proof (induction s)
  case Nil
  show ?case by simp
next
  case (Cons c cs)
  then have "\<not> prefix old (c # cs)" "\<not> sublist old cs"
    by (auto simp: sublist_Cons_right)
  with Cons.IH show ?case by simp
qed





section \<open>Slicing, sorting and what the fetchers return\<close>

lemma length_py_slice_to: "0 \<le> n \<Longrightarrow> length (py_slice_to n xs) \<le> nat n"
  by (simp add: py_slice_to_def)

lemma py_slice_to_take: "\<exists>m. py_slice_to n xs = take m xs"
  by (auto simp: py_slice_to_def)

lemma set_py_slice_to: "set (py_slice_to n xs) \<subseteq> set xs"
  using py_slice_to_take [of n xs] by (auto dest: in_set_takeD)

lemma sort_by_date_Inr:
  "sort_by_date lib xs = Inr zs \<Longrightarrow>
     zs = rev (sort_key (\<lambda>item. ord_key (get_sort_key lib item)) (rev xs))"
  by (simp add: sort_by_date_def Let_def split: if_splits)

lemma set_sort_by_date: "sort_by_date lib xs = Inr zs \<Longrightarrow> set zs = set xs"
  by (auto dest!: sort_by_date_Inr)

lemma length_sort_by_date: "sort_by_date lib xs = Inr zs \<Longrightarrow> length zs = length xs"
  by (auto dest!: sort_by_date_Inr)

lemma sort_by_date_descending:
  assumes "sort_by_date lib xs = Inr zs"
  shows "sorted_wrt (\<lambda>a b. ord_key (get_sort_key lib b) \<le> ord_key (get_sort_key lib a)) zs"
proof -
  let ?f = "\<lambda>item. ord_key (get_sort_key lib item)"
  have "sorted (map ?f (sort_key ?f (rev xs)))"
    by (rule sorted_sort_key)
  then have "sorted_wrt (\<lambda>a b. ?f a \<le> ?f b) (sort_key ?f (rev xs))"
    by (simp add: sorted_map)
  then have "sorted_wrt (\<lambda>a b. ?f b \<le> ?f a) (rev (sort_key ?f (rev xs)))"
    by (simp add: sorted_wrt_rev)
  then show ?thesis
    using sort_by_date_Inr [OF assms] by simp
qed

lemma sort_by_date_stable:
  assumes "sort_by_date lib xs = Inr zs"
  shows "filter (\<lambda>y. get_sort_key lib y = k) zs = filter (\<lambda>y. get_sort_key lib y = k) xs"
proof -
  let ?f = "\<lambda>item. ord_key (get_sort_key lib item)"
  let ?P = "\<lambda>y. get_sort_key lib y = k"
  let ?Q = "\<lambda>y. ?f y = ord_key k"
  have pq: "filter ?P ys = filter ?P (filter ?Q ys)" for ys
    by (induction ys) auto
  have "filter ?Q (sort_key ?f (rev xs)) = filter ?Q (rev xs)"
    by (rule sort_key_stable)
  then have "filter ?P (sort_key ?f (rev xs)) = filter ?P (rev xs)"
    using pq [of "sort_key ?f (rev xs)"] pq [of "rev xs"] by simp
  then have "filter ?P (rev (sort_key ?f (rev xs))) = filter ?P xs"
    by (simp add: rev_filter [symmetric])
  then show ?thesis
    using sort_by_date_Inr [OF assms] by simp
qed

lemma sort_by_date_same_kind:
  assumes "sort_by_date lib xs = Inr zs" "a \<in> set zs" "b \<in> set zs"
  shows "is_naive (get_sort_key lib a) = is_naive (get_sort_key lib b)"
proof -
  have "\<not> (list_ex is_naive (map (get_sort_key lib) xs)
            \<and> list_ex (\<lambda>k. \<not> is_naive k) (map (get_sort_key lib) xs))"
    using assms(1) by (auto simp: sort_by_date_def Let_def split: if_splits)
  moreover have "a \<in> set xs" "b \<in> set xs"
    using assms set_sort_by_date by auto
  ultimately show ?thesis
    by (auto simp: list_ex_iff)
qed

lemma naive_ord_min: "is_naive d \<Longrightarrow> ord_key d \<le> ord_key datetime_min \<Longrightarrow> d = datetime_min"
  by (cases d) (auto simp: datetime_min_def)

lemma undated_key:
  "date item = None \<or> date item = Some [] \<Longrightarrow> get_sort_key lib item = datetime_min"
  by (auto simp: get_sort_key_def)

lemma unparseable_key:
  "date item = Some s \<Longrightarrow> fromisoformat lib (py_replace ''Z'' ''+00:00'' s) = None \<Longrightarrow>
     get_sort_key lib item = datetime_min"
  by (auto simp: get_sort_key_def)

lemma ranked_output:
  assumes s: "sort_by_date lib all_items = Inr zs" and ys: "ys = py_slice_to limit zs"
  shows "sorted_wrt (\<lambda>a b. ord_key (get_sort_key lib b) \<le> ord_key (get_sort_key lib a)) ys"
    and "\<And>i j. i < j \<Longrightarrow> j < length ys \<Longrightarrow> get_sort_key lib (ys ! i) = datetime_min \<Longrightarrow>
           get_sort_key lib (ys ! j) = datetime_min"
    and "\<And>k. prefix (filter (\<lambda>y. get_sort_key lib y = k) ys)
                 (filter (\<lambda>y. get_sort_key lib y = k) all_items)"
proof -
  obtain m where m: "ys = take m zs"
    using py_slice_to_take [of limit zs] ys by auto
  have d: "sorted_wrt (\<lambda>a b. ord_key (get_sort_key lib b) \<le> ord_key (get_sort_key lib a)) zs"
    by (rule sort_by_date_descending [OF s])
  show srt: "sorted_wrt (\<lambda>a b. ord_key (get_sort_key lib b) \<le> ord_key (get_sort_key lib a)) ys"
    unfolding m using d by (rule sorted_wrt_take)
  show "get_sort_key lib (ys ! j) = datetime_min"
    if "i < j" "j < length ys" "get_sort_key lib (ys ! i) = datetime_min" for i j
  proof -
    have le: "ord_key (get_sort_key lib (ys ! j)) \<le> ord_key (get_sort_key lib (ys ! i))"
      using sorted_wrt_nth_less [OF srt that(1,2)] .
    have mem: "ys ! i \<in> set zs" "ys ! j \<in> set zs"
      using that(1,2) m by (auto dest: in_set_takeD simp: nth_mem [THEN in_set_takeD])
    have "is_naive (get_sort_key lib (ys ! j)) = is_naive (get_sort_key lib (ys ! i))"
      by (rule sort_by_date_same_kind [OF s mem(2) mem(1)])
    then have "is_naive (get_sort_key lib (ys ! j))"
      using that(3) by (simp add: datetime_min_def)
    then show ?thesis
      using le that(3) naive_ord_min by simp
  qed
  show "prefix (filter (\<lambda>y. get_sort_key lib y = k) ys)
               (filter (\<lambda>y. get_sort_key lib y = k) all_items)" for k
    unfolding m sort_by_date_stable [OF s, of k, symmetric]
    by (rule filter_mono_prefix) (rule take_is_prefix)
qed

lemma in_map_filter: "y \<in> set (List.map_filter f xs) \<Longrightarrow> \<exists>x \<in> set xs. f x = Some y"
  by (auto simp: List.map_filter_def)

lemma length_map_filter_le: "length (List.map_filter f xs) \<le> length xs"
  by (simp add: List.map_filter_def)

lemma parse_feed_entry_fields:
  assumes "parse_feed_entry lib entry source_name is_cve = Some item"
  shows "source item = source_name" and "type item = (if is_cve then CVE else News)"
    and "length (summary item) \<le> 500"
  using assms by (auto simp: parse_feed_entry_def Let_def split: raw_entry.splits)

lemma parse_feed_entry_summary:
  assumes "parse_feed_entry lib (WellTyped e) source_name is_cve = Some item"
  shows "summary item =
           take 500 (clean_html (py_or (e_summary e) (py_or (e_description e) ''No description available.'')))"
  using assms by (auto simp: parse_feed_entry_def Let_def)

lemma fetch_rss_feed_item:
  assumes "item \<in> set (fetch_rss_feed lib env feed_url source_name is_cve max_items)"
  shows "\<exists>entry. parse_feed_entry lib entry source_name is_cve = Some item"
proof (cases "feedparser_parse env feed_url")
  case (ParseRaises e)
  with assms show ?thesis by (simp add: fetch_rss_feed_def)
next
  case (Parsed entries)
  with assms have "item \<in> set (List.map_filter (\<lambda>entry. parse_feed_entry lib entry source_name is_cve)
                     (py_slice_to max_items entries))"
    by (simp add: fetch_rss_feed_def)
  then show ?thesis
    by (blast dest: in_map_filter)
qed

lemma length_fetch_rss_feed:
  assumes "0 \<le> max_items"
  shows "length (fetch_rss_feed lib env feed_url source_name is_cve max_items) \<le> nat max_items"
proof (cases "feedparser_parse env feed_url")
  case (ParseRaises e)
  then show ?thesis by (simp add: fetch_rss_feed_def)
next
  case (Parsed entries)
  have "length (List.map_filter (\<lambda>entry. parse_feed_entry lib entry source_name is_cve)
                  (py_slice_to max_items entries)) \<le> length (py_slice_to max_items entries)"
    by (rule length_map_filter_le)
  also have "\<dots> \<le> nat max_items"
    by (rule length_py_slice_to [OF assms])
  finally show ?thesis
    using Parsed by (simp add: fetch_rss_feed_def)
qed

lemma nvd_item_fields:
  "source (nvd_item cve) = ''NIST NVD''" "type (nvd_item cve) = CVE"
  "summary (nvd_item cve) = take 500 (select_description (case cve of None \<Rightarrow> [] | Some c \<Rightarrow> descriptions c))"
  by (simp_all add: nvd_item_def Let_def)

lemma nvd_loop_item: "item \<in> set (nvd_loop vs) \<Longrightarrow> \<exists>cve. item = nvd_item cve"
proof (induction vs)
  case Nil
  then show ?case by simp
next
  case (Cons v vs)
  then show ?case by (cases v) auto
qed

lemma length_nvd_loop: "length (nvd_loop vs) \<le> length vs"
proof (induction vs)
  case Nil
  show ?case by simp
next
  case (Cons v vs)
  then show ?case by (cases v) auto
qed

lemma fetch_nvd_cases:
  "fetch_nvd_cve_recent env limit = [] \<or>
   (\<exists>vs. fetch_nvd_cve_recent env limit = nvd_loop (py_slice_to limit vs))"
  by (auto simp: fetch_nvd_cve_recent_def split: nvd_reply.split nvd_body.split option.split)

lemma fetch_nvd_item: "item \<in> set (fetch_nvd_cve_recent env limit) \<Longrightarrow> \<exists>cve. item = nvd_item cve"
  using fetch_nvd_cases [of env limit] by (auto dest: nvd_loop_item)

lemma length_fetch_nvd:
  assumes "0 \<le> limit"
  shows "length (fetch_nvd_cve_recent env limit) \<le> nat limit"
proof -
  have "length (nvd_loop (py_slice_to limit vs)) \<le> nat limit" for vs
    using length_nvd_loop [of "py_slice_to limit vs"] length_py_slice_to [OF assms, of vs]
    by simp
  then show ?thesis
    using fetch_nvd_cases [of env limit] by auto
qed

lemma collected_item:
  assumes "item \<in> set (collect_news lib env include_cves) \<or> item \<in> set (collect_cves lib env limit)"
  shows "(\<exists>entry source_name is_cve. parse_feed_entry lib entry source_name is_cve = Some item)
         \<or> (\<exists>cve. item = nvd_item cve)"
  using assms
  by (auto simp: collect_news_def collect_cves_def split: if_splits
      dest!: fetch_rss_feed_item fetch_nvd_item)

lemma returned_subset:
  assumes "get_latest_news lib env limit include_cves = Inr ys"
  shows "set ys \<subseteq> set (collect_news lib env include_cves)"
proof -
  obtain zs where z: "sort_by_date lib (collect_news lib env include_cves) = Inr zs"
    and y: "ys = py_slice_to limit zs"
    using assms by (auto simp: get_latest_news_def split: sum.splits)
  show ?thesis
    using set_py_slice_to [of limit zs] set_sort_by_date [OF z] y by simp
qed

lemma returned_subset_cves:
  assumes "get_cves_only lib env limit = Inr ys"
  shows "set ys \<subseteq> set (collect_cves lib env limit)"
proof -
  obtain zs where z: "sort_by_date lib (collect_cves lib env limit) = Inr zs"
    and y: "ys = py_slice_to limit zs"
    using assms by (auto simp: get_cves_only_def split: sum.splits)
  show ?thesis
    using set_py_slice_to [of limit zs] set_sort_by_date [OF z] y by simp
qed

lemma fetch_rss_feed_source:
  assumes "item \<in> set (fetch_rss_feed lib env feed_url source_name is_cve max_items)"
  shows "source item = source_name" and "type item = (if is_cve then CVE else News)"
  using fetch_rss_feed_item [OF assms] parse_feed_entry_fields(1,2) by blast+

lemma fetch_nvd_source:
  assumes "item \<in> set (fetch_nvd_cve_recent env limit)"
  shows "source item = ''NIST NVD''" and "type item = CVE"
  using fetch_nvd_item [OF assms] by (auto simp: nvd_item_fields)

lemma filter_nothing: "(\<And>x. x \<in> set xs \<Longrightarrow> \<not> P x) \<Longrightarrow> filter P xs = []"
  by (simp add: filter_empty_conv)

lemma collect_cves_parts:
  "collect_cves lib env limit =
     fetch_rss_feed lib env ''https://nvd.nist.gov/feeds/xml/cve/misc/nvd-rss-analyzed.xml''
       ''nvd-rss-analyzed.xml'' True 3
     @ fetch_rss_feed lib env ''https://www.securityfocus.com/vulnerabilities/rss'' ''rss'' True 3
     @ fetch_nvd_cve_recent env limit"
  by (simp add: collect_cves_def CVE_FEEDS_def cve_source_name_def last_segment_def)

lemma collect_news_parts:
  "collect_news lib env True =
     concat (map (\<lambda>feed_url. fetch_rss_feed lib env feed_url (news_source_name feed_url) False 2)
               (as_completed env NEWS_FEEDS))
     @ fetch_rss_feed lib env ''https://nvd.nist.gov/feeds/xml/cve/misc/nvd-rss-analyzed.xml''
         ''nvd-rss-analyzed.xml'' True 2
     @ fetch_rss_feed lib env ''https://www.securityfocus.com/vulnerabilities/rss'' ''rss'' True 2
     @ fetch_nvd_cve_recent env 3"
  by (simp add: collect_news_def CVE_FEEDS_def cve_source_name_def last_segment_def)

lemma news_part_no_cve:
  "filter (\<lambda>i. type i = CVE \<and> Q i)
     (concat (map (\<lambda>feed_url. fetch_rss_feed lib env feed_url (news_source_name feed_url) False 2) urls)) = []"
  by (rule filter_nothing) (auto dest: fetch_rss_feed_source(2))

lemma length_filter_sorted:
  assumes "sort_by_date lib xs = Inr zs"
  shows "length (filter P zs) = length (filter P xs)"
proof -
  let ?f = "\<lambda>item. ord_key (get_sort_key lib item)"
  have "length (filter P (rev (sort_key ?f (rev xs)))) = length (filter P (sort_key ?f (rev xs)))"
    by (simp add: rev_filter [symmetric])
  also have "\<dots> = length (sort_key ?f (filter P (rev xs)))"
    by (simp add: filter_sort)
  also have "\<dots> = length (filter P xs)"
    by (simp add: rev_filter [symmetric])
  finally show ?thesis
    using sort_by_date_Inr [OF assms] by simp
qed

lemma length_filter_returned:
  assumes "get_cves_only lib env limit = Inr ys"
  shows "length (filter P ys) \<le> length (filter P (collect_cves lib env limit))"
proof -
  obtain zs where z: "sort_by_date lib (collect_cves lib env limit) = Inr zs"
    and y: "ys = py_slice_to limit zs"
    using assms by (auto simp: get_cves_only_def split: sum.splits)
  obtain m where m: "ys = take m zs"
    using py_slice_to_take [of limit zs] y by auto
  have "prefix (filter P ys) (filter P zs)"
    unfolding m by (rule filter_mono_prefix) (rule take_is_prefix)
  then have "length (filter P ys) \<le> length (filter P zs)"
    by (rule prefix_length_le)
  then show ?thesis
    using length_filter_sorted [OF z, of P] by simp
qed

lemma filter_everything: "(\<And>x. x \<in> set xs \<Longrightarrow> P x) \<Longrightarrow> filter P xs = xs"
  by (simp add: filter_id_conv)

lemma length_py_slice_to_exact:
  "length (py_slice_to n xs) = (if 0 \<le> n then min (nat n) (length xs) else length xs - nat (- n))"
  by (auto simp: py_slice_to_def)

lemma fetch_nvd_only_request:
  "requests_get env' (min limit 20) = requests_get env (min limit 20) \<Longrightarrow>
     fetch_nvd_cve_recent env' limit = fetch_nvd_cve_recent env limit"
  by (simp add: fetch_nvd_cve_recent_def)

lemma fetch_nvd_reply:
  "requests_get env (min limit 20) = Response 200 (Data (Some vs)) \<Longrightarrow>
     fetch_nvd_cve_recent env limit = nvd_loop (py_slice_to limit vs)"
  by (simp add: fetch_nvd_cve_recent_def)

lemma fetch_nvd_no_reply:
  "(\<forall>vs. requests_get env (min limit 20) \<noteq> Response 200 (Data (Some vs))) \<Longrightarrow>
     fetch_nvd_cve_recent env limit = []"
  by (auto simp: fetch_nvd_cve_recent_def split: nvd_reply.split nvd_body.split option.split)

section \<open>The example environments, evaluated\<close>

lemma cve_source_names: "map cve_source_name CVE_FEEDS = [''nvd-rss-analyzed.xml'', ''rss'']"
  by (simp add: CVE_FEEDS_def cve_source_name_def last_segment_def)

lemma one_feed_env_unreachable:
  "feed_url \<noteq> ''https://www.securityfocus.com/vulnerabilities/rss'' \<Longrightarrow>
     fetch_rss_feed lib (one_feed_env es vs) feed_url source_name is_cve max_items = []"
  by (simp add: fetch_rss_feed_def one_feed_env_def)

lemma one_feed_env_news:
  "concat (map (\<lambda>feed_url. fetch_rss_feed lib (one_feed_env es vs) feed_url (news_source_name feed_url) False 2)
     (as_completed (one_feed_env es vs) NEWS_FEEDS)) = []"
proof -
  have "as_completed (one_feed_env es vs) urls = urls" for urls
    by (simp add: one_feed_env_def)
  then show ?thesis
    by (simp add: NEWS_FEEDS_def one_feed_env_unreachable)
qed

lemma one_feed_env_cve_feeds:
  "concat (map (\<lambda>feed_url. fetch_rss_feed lib (one_feed_env es vs) feed_url (cve_source_name feed_url) True k)
     CVE_FEEDS)
   = List.map_filter (\<lambda>entry. parse_feed_entry lib entry ''rss'' True) (py_slice_to k es)"
  by (simp add: CVE_FEEDS_def one_feed_env_unreachable cve_source_name_def last_segment_def)
     (simp add: fetch_rss_feed_def one_feed_env_def)

lemma one_feed_env_nvd:
  "fetch_nvd_cve_recent (one_feed_env es vs) limit = nvd_loop (py_slice_to limit (vs (min limit 20)))"
  by (simp add: fetch_nvd_cve_recent_def one_feed_env_def)

lemma collect_cves_one_feed:
  "collect_cves lib (one_feed_env es vs) limit =
     List.map_filter (\<lambda>entry. parse_feed_entry lib entry ''rss'' True) (py_slice_to 3 es)
     @ nvd_loop (py_slice_to limit (vs (min limit 20)))"
  by (simp add: collect_cves_def one_feed_env_cve_feeds one_feed_env_nvd)

lemma collect_news_one_feed:
  "collect_news lib (one_feed_env es vs) True =
     List.map_filter (\<lambda>entry. parse_feed_entry lib entry ''rss'' True) (py_slice_to 2 es)
     @ nvd_loop (py_slice_to 3 (vs 3))"
  by (simp add: collect_news_def one_feed_env_cve_feeds one_feed_env_nvd one_feed_env_news)

lemma parse_plain_entry:
  "parse_feed_entry example_lib (plain_entry t p) ''rss'' True =
     Some (feed_item t (case p of None \<Rightarrow> None | Some tt \<Rightarrow> if tt = [] then None else isoformat6 example_lib (take 6 tt))
             \<lparr>cve_id := search_cve (t @ '' https://example.org/'')\<rparr>)"
  by (simp add: parse_feed_entry_def plain_entry_def feed_item_def clean_html_def py_or_def Let_def)

lemma search_cve_needs_C: "CHR ''C'' \<notin> set s \<Longrightarrow> search_cve s = None"
proof (induction s)
  case Nil
  show ?case by simp
next
  case (Cons c cs)
  then have "match_cve (c # cs) = None"
    by (auto simp: match_cve_def Let_def take_Cons')
  with Cons show ?case by simp
qed

lemma plain_titles_no_cve:
  "search_cve ''Advisory https://example.org/'' = None"
  "search_cve ''Undated https://example.org/'' = None"
  "search_cve ''April https://example.org/'' = None"
  "search_cve ''One https://example.org/'' = None"
  "search_cve ''Two https://example.org/'' = None"
  "search_cve ''Three https://example.org/'' = None"
  by (rule search_cve_needs_C, simp)+

lemma nvd_loop_plain_cve:
  "nvd_loop (plain_cve i p # vs) = api_item i (case p of None \<Rightarrow> [] | Some d \<Rightarrow> d) # nvd_loop vs"
  by (simp add: plain_cve_def nvd_item_def api_item_def select_description_def Let_def split: option.split)

lemma example_keys:
  "get_sort_key example_lib (feed_item t None) = Naive 0"
  "get_sort_key example_lib (api_item i []) = Naive 0"
  "get_sort_key example_lib (api_item i ''0001-01-01T00:00:00'') = Naive 0"
  "get_sort_key example_lib (feed_item t (Some ''2024-04-01T00:00:00'')) = Naive 63847526400000000"
  "get_sort_key example_lib (api_item i ''2024-05-01T12:00:00'') = Naive 63850161600000000"
  "get_sort_key example_lib (api_item i ''2024-05-01T12:00:00Z'') = Aware 63850161600000000"
  by (simp_all add: get_sort_key_def feed_item_def api_item_def datetime_min_def example_lib_def)

lemma offset_dates_collected:
  "collect_news example_lib offset_dates_env True =
     [feed_item ''Advisory'' None, api_item ''CVE-2024-0001'' ''2024-05-01T12:00:00Z'']"
  "collect_cves example_lib offset_dates_env 5 =
     [feed_item ''Advisory'' None, api_item ''CVE-2024-0001'' ''2024-05-01T12:00:00Z'']"
  by (simp_all add: offset_dates_env_def collect_cves_one_feed collect_news_one_feed py_slice_to_def
        List.map_filter_simps parse_plain_entry nvd_loop_plain_cve plain_titles_no_cve feed_item_def
        del: search_cve.simps)

lemma sentinel_collected:
  "collect_cves example_lib sentinel_env 5 =
     [feed_item ''Advisory'' None, api_item ''CVE-2024-0001'' ''0001-01-01T00:00:00'']"
  by (simp add: sentinel_env_def collect_cves_one_feed py_slice_to_def List.map_filter_simps
        parse_plain_entry nvd_loop_plain_cve plain_titles_no_cve feed_item_def del: search_cve.simps)

lemma example_isoformat:
  "isoformat6 example_lib [2024, 4, 1, 0, 0, 0] = Some ''2024-04-01T00:00:00''"
  by (simp add: example_lib_def)

lemma dated_collected:
  "collect_news example_lib dated_env True =
     [feed_item ''Undated'' None, feed_item ''April'' (Some ''2024-04-01T00:00:00''),
      api_item ''CVE-2024-0001'' ''2024-05-01T12:00:00'']"
  by (simp add: dated_env_def collect_news_one_feed py_slice_to_def List.map_filter_simps
        parse_plain_entry nvd_loop_plain_cve plain_titles_no_cve feed_item_def example_isoformat
        del: search_cve.simps)

lemma dated_ranked:
  "get_latest_news example_lib dated_env limit True =
     Inr (py_slice_to limit
       [api_item ''CVE-2024-0001'' ''2024-05-01T12:00:00'', feed_item ''April'' (Some ''2024-04-01T00:00:00''),
        feed_item ''Undated'' None])"
  by (simp add: get_latest_news_def dated_collected sort_by_date_def example_keys)

lemma busy_collected:
  "collect_cves example_lib busy_cve_env 10 =
     [feed_item ''One'' None, feed_item ''Two'' None, feed_item ''Three'' None,
      api_item ''CVE-2024-0001'' [], api_item ''CVE-2024-0002'' [],
      api_item ''CVE-2024-0003'' [], api_item ''CVE-2024-0004'' []]"
  by (simp add: busy_cve_env_def collect_cves_one_feed py_slice_to_def List.map_filter_simps
        parse_plain_entry nvd_loop_plain_cve plain_titles_no_cve feed_item_def del: search_cve.simps)

section \<open>The properties of the fetcher\<close>

text \<open>
  C1. No core operation is to raise to its caller. The fetchers and the retry wrapper
  turn every failure into a value, but the final sort does not: its key is
  \<open>datetime.min\<close>, a naive timestamp, for an item without a date, and an aware timestamp
  for a date with an offset (a trailing \<open>Z\<close> is rewritten to \<open>+00:00\<close> on purpose), and
  ordering the two raises \<open>TypeError\<close> outside every \<open>try\<close>. With one undated feed
  entry and one record published at \<open>2024-05-01T12:00:00Z\<close>, both \<open>get_latest_news\<close>
  and \<open>get_cves_only\<close> raise.
\<close>

theorem sort_raises_on_offset_dates:
  "get_latest_news example_lib offset_dates_env 5 True = Inl TypeError
   \<and> get_cves_only example_lib offset_dates_env 5 = Inl TypeError"
  by (simp add: get_latest_news_def get_cves_only_def offset_dates_collected sort_by_date_def example_keys)




text \<open>
  C4, as stated, fails on a date equal to the sentinel: an undated entry collected
  before a record published at \<open>0001-01-01T00:00:00\<close> has the same key and stays in
  front of it.
\<close>

theorem undated_before_dated_counterexample:
  "get_cves_only example_lib sentinel_env 5 =
     Inr [feed_item ''Advisory'' None, api_item ''CVE-2024-0001'' ''0001-01-01T00:00:00'']
   \<and> date (feed_item ''Advisory'' None) = None
   \<and> date (api_item ''CVE-2024-0001'' ''0001-01-01T00:00:00'') = Some ''0001-01-01T00:00:00''
   \<and> fromisoformat example_lib (py_replace ''Z'' ''+00:00'' ''0001-01-01T00:00:00'') = Some datetime_min"
proof -
  have r: "get_cves_only example_lib sentinel_env 5 =
     Inr [feed_item ''Advisory'' None, api_item ''CVE-2024-0001'' ''0001-01-01T00:00:00'']"
    by (simp add: get_cves_only_def sentinel_collected sort_by_date_def example_keys py_slice_to_def)
  have d: "date (feed_item ''Advisory'' None) = None"
    "date (api_item ''CVE-2024-0001'' ''0001-01-01T00:00:00'') = Some ''0001-01-01T00:00:00''"
    by (simp_all add: feed_item_def api_item_def)
  have p: "fromisoformat example_lib (py_replace ''Z'' ''+00:00'' ''0001-01-01T00:00:00'') = Some datetime_min"
    by (simp add: example_lib_def datetime_min_def)
  show ?thesis
    using r d p by simp
qed

text \<open>
  C4, amended. Whenever \<open>get_latest_news\<close> or \<open>get_cves_only\<close> returns a sequence, it is
  sorted descending by the sort key; an item whose date is absent, empty or not
  parseable has the sentinel key \<open>datetime.min\<close>; after an item with the sentinel key
  come only items with the sentinel key, so every item dated later than the sentinel
  precedes every undated one; and the items of one key are in the order in which they
  were collected.
\<close>

theorem ranking_order:
  assumes c: "r = get_latest_news lib env limit include_cves \<and> all_items = collect_news lib env include_cves
           \<or> r = get_cves_only lib env limit \<and> all_items = collect_cves lib env limit"
    and r: "r = Inr ys"
  shows "sorted_wrt (\<lambda>a b. ord_key (get_sort_key lib b) \<le> ord_key (get_sort_key lib a)) ys
    \<and> (\<forall>item \<in> set ys. date item = None \<or> date item = Some [] \<longrightarrow> get_sort_key lib item = datetime_min)
    \<and> (\<forall>item \<in> set ys. \<forall>s. date item = Some s \<and> fromisoformat lib (py_replace ''Z'' ''+00:00'' s) = None
          \<longrightarrow> get_sort_key lib item = datetime_min)
    \<and> (\<forall>i j. i < j \<and> j < length ys \<and> get_sort_key lib (ys ! i) = datetime_min
          \<longrightarrow> get_sort_key lib (ys ! j) = datetime_min)
    \<and> (\<forall>k. prefix (filter (\<lambda>y. get_sort_key lib y = k) ys)
                   (filter (\<lambda>y. get_sort_key lib y = k) all_items))"
proof -
  obtain zs where z: "sort_by_date lib all_items = Inr zs" and y: "ys = py_slice_to limit zs"
    using c r by (auto simp: get_latest_news_def get_cves_only_def split: sum.splits)
  note ro = ranked_output [OF z y]
  show ?thesis
    using ro(1) ro(2) ro(3) undated_key unparseable_key by blast
qed

theorem ranking_order_witness:
  "get_latest_news example_lib dated_env 5 True =
     Inr [api_item ''CVE-2024-0001'' ''2024-05-01T12:00:00'', feed_item ''April'' (Some ''2024-04-01T00:00:00''),
          feed_item ''Undated'' None]
   \<and> sorted_wrt (\<lambda>a b. ord_key (get_sort_key example_lib b) \<le> ord_key (get_sort_key example_lib a))
       [api_item ''CVE-2024-0001'' ''2024-05-01T12:00:00'', feed_item ''April'' (Some ''2024-04-01T00:00:00''),
        feed_item ''Undated'' None]
   \<and> get_sort_key example_lib (feed_item ''Undated'' None) = datetime_min"
proof -
  let ?ys = "[api_item ''CVE-2024-0001'' ''2024-05-01T12:00:00'', feed_item ''April'' (Some ''2024-04-01T00:00:00''),
          feed_item ''Undated'' None]"
  have r: "get_latest_news example_lib dated_env 5 True = Inr ?ys"
    by (simp add: dated_ranked py_slice_to_def)
  have c: "get_latest_news example_lib dated_env 5 True = get_latest_news example_lib dated_env 5 True
             \<and> collect_news example_lib dated_env True = collect_news example_lib dated_env True
           \<or> get_latest_news example_lib dated_env 5 True = get_cves_only example_lib dated_env 5
             \<and> collect_news example_lib dated_env True = collect_cves example_lib dated_env 5"
    by simp
  note ro = ranking_order [OF c r]
  have s: "sorted_wrt (\<lambda>a b. ord_key (get_sort_key example_lib b) \<le> ord_key (get_sort_key example_lib a)) ?ys"
    using ro by (rule conjunct1)
  have "\<forall>item \<in> set ?ys. date item = None \<or> date item = Some [] \<longrightarrow>
          get_sort_key example_lib item = datetime_min"
    using ro by (elim conjE)
  moreover have "date (feed_item ''Undated'' None) = None"
    by (simp add: feed_item_def)
  ultimately have m: "get_sort_key example_lib (feed_item ''Undated'' None) = datetime_min"
    by simp
  show ?thesis
    using r s m by (intro conjI)
qed

text \<open>
  C5. Every item of the normaliser (\<open>parse_feed_entry\<close>) and of the enricher
  (\<open>nvd_item\<close>, the items of \<open>fetch_nvd_cve_recent\<close>) has a summary of at most 500
  characters, and the summary is the first 500 characters of the cleaned text or of
  the description, with nothing appended. The same holds for whatever
  \<open>fetch_rss_feed\<close>, \<open>get_latest_news\<close> and \<open>get_cves_only\<close> return.
\<close>

theorem summary_length_bound:
  "(parse_feed_entry lib entry source_name is_cve = Some item \<longrightarrow> length (summary item) \<le> 500)
   \<and> (parse_feed_entry lib (WellTyped e) source_name is_cve = Some item \<longrightarrow>
        summary item =
          take 500 (clean_html (py_or (e_summary e) (py_or (e_description e) ''No description available.''))))
   \<and> length (summary (nvd_item cve)) \<le> 500
   \<and> summary (nvd_item cve) =
        take 500 (select_description (case cve of None \<Rightarrow> [] | Some c \<Rightarrow> descriptions c))
   \<and> (\<forall>i \<in> set (fetch_rss_feed lib env feed_url source_name is_cve max_items). length (summary i) \<le> 500)
   \<and> (\<forall>i \<in> set (fetch_nvd_cve_recent env limit). length (summary i) \<le> 500)
   \<and> (get_latest_news lib env limit include_cves = Inr ys \<or> get_cves_only lib env limit = Inr ys \<longrightarrow>
        (\<forall>i \<in> set ys. length (summary i) \<le> 500))"
proof (intro conjI impI ballI)
  show "length (summary item) \<le> 500"
    if "parse_feed_entry lib entry source_name is_cve = Some item"
    using parse_feed_entry_fields(3) [OF that] .
  show "summary item =
          take 500 (clean_html (py_or (e_summary e) (py_or (e_description e) ''No description available.'')))"
    if "parse_feed_entry lib (WellTyped e) source_name is_cve = Some item"
    using parse_feed_entry_summary [OF that] .
  show "length (summary (nvd_item cve)) \<le> 500"
    by (simp add: nvd_item_fields)
  show "summary (nvd_item cve) =
        take 500 (select_description (case cve of None \<Rightarrow> [] | Some c \<Rightarrow> descriptions c))"
    by (rule nvd_item_fields)
  show "length (summary i) \<le> 500"
    if "i \<in> set (fetch_rss_feed lib env feed_url source_name is_cve max_items)" for i
    using fetch_rss_feed_item [OF that] parse_feed_entry_fields(3) by blast
  show "length (summary i) \<le> 500" if "i \<in> set (fetch_nvd_cve_recent env limit)" for i
    using fetch_nvd_item [OF that] by (auto simp: nvd_item_fields)
  show "length (summary i) \<le> 500"
    if r: "get_latest_news lib env limit include_cves = Inr ys \<or> get_cves_only lib env limit = Inr ys"
      and i: "i \<in> set ys" for i
  proof -
    have "i \<in> set (collect_news lib env include_cves) \<or> i \<in> set (collect_cves lib env limit)"
      using r i returned_subset returned_subset_cves by blast
    then show ?thesis
      using collected_item [of i lib env include_cves limit] parse_feed_entry_fields(3)
      by (auto simp: nvd_item_fields)
  qed
qed

theorem summary_length_bound_witness:
  "parse_feed_entry example_lib long_entry ''rss'' False =
     Some \<lparr>title = ''Long'', link = [], summary = replicate 500 (CHR ''a''), source = ''rss'',
           date = None, type = News, cve_id = None, cvss_score = None\<rparr>
   \<and> length (replicate 500 (CHR ''a'')) \<le> 500"
proof -
  let ?item = "\<lparr>title = ''Long'', link = [], summary = replicate 500 (CHR ''a''), source = ''rss'',
           date = None, type = News, cve_id = None, cvss_score = None\<rparr>"
  have p: "parse_feed_entry example_lib long_entry ''rss'' False = Some ?item"
    by (simp add: parse_feed_entry_def long_entry_def clean_html_def py_or_def Let_def)
  show ?thesis
    using summary_length_bound [of example_lib long_entry "''rss''" False ?item] p by simp
qed

text \<open>
  C6, as stated, fails: \<open>get_cves_only\<close> takes three entries of a vulnerability feed
  that has four, and with \<open>limit = 10\<close> it asks the enricher for 10 records and keeps the
  four it is given.
\<close>

theorem cves_only_fetch_counterexample:
  "map_sum id (map source) (get_cves_only example_lib busy_cve_env 10) =
     Inr [''rss'', ''rss'', ''rss'', ''NIST NVD'', ''NIST NVD'', ''NIST NVD'', ''NIST NVD'']"
proof -
  have "get_cves_only example_lib busy_cve_env 10 =
     Inr [feed_item ''One'' None, feed_item ''Two'' None, feed_item ''Three'' None,
      api_item ''CVE-2024-0001'' [], api_item ''CVE-2024-0002'' [],
      api_item ''CVE-2024-0003'' [], api_item ''CVE-2024-0004'' []]"
    by (simp add: get_cves_only_def busy_collected sort_by_date_def example_keys py_slice_to_def)
  then show ?thesis
    by (simp add: feed_item_def api_item_def)
qed

text \<open>
  C6, amended. \<open>get_cves_only\<close> collects vulnerability items only: at most 3 from each
  vulnerability feed, and the items of the enricher called with \<open>limit\<close>. The enricher
  sends one request, for \<open>min(limit, 20)\<close> results per page, and sees the network through
  its reply alone; of the records of a reply with status 200 it keeps at most the slice
  \<open>[:limit]\<close>, that is at most \<open>limit\<close> records for \<open>limit \<ge> 0\<close> and all but the last
  \<open>-limit\<close> for a negative \<open>limit\<close>, and nothing after any other reply. What
  \<open>get_cves_only\<close> returns is the sorted collection cut at \<open>[:limit]\<close>. It is
  \<open>get_latest_news\<close> that takes at most 2 from each vulnerability feed and calls the
  enricher with 3, for at most 3 records.
\<close>

theorem cves_only_fetch_bounds:
  "(\<forall>item \<in> set (collect_cves lib env limit). type item = CVE)
   \<and> (\<forall>s \<in> set (map cve_source_name CVE_FEEDS).
        length (filter (\<lambda>i. source i = s) (collect_cves lib env limit)) \<le> 3)
   \<and> filter (\<lambda>i. source i = ''NIST NVD'') (collect_cves lib env limit) = fetch_nvd_cve_recent env limit
   \<and> (\<forall>env'. requests_get env' (min limit 20) = requests_get env (min limit 20) \<longrightarrow>
        fetch_nvd_cve_recent env' limit = fetch_nvd_cve_recent env limit)
   \<and> (\<forall>vs. requests_get env (min limit 20) = Response 200 (Data (Some vs)) \<longrightarrow>
        fetch_nvd_cve_recent env limit = nvd_loop (py_slice_to limit vs)
        \<and> length (fetch_nvd_cve_recent env limit)
            \<le> (if 0 \<le> limit then min (nat limit) (length vs) else length vs - nat (- limit)))
   \<and> ((\<forall>vs. requests_get env (min limit 20) \<noteq> Response 200 (Data (Some vs))) \<longrightarrow>
        fetch_nvd_cve_recent env limit = [])
   \<and> (get_cves_only lib env limit = Inr ys \<longrightarrow>
        (\<exists>zs. sort_by_date lib (collect_cves lib env limit) = Inr zs \<and> ys = py_slice_to limit zs)
        \<and> (\<forall>P. length (filter P ys) \<le> length (filter P (collect_cves lib env limit))))
   \<and> (\<forall>s \<in> set (map cve_source_name CVE_FEEDS).
        length (filter (\<lambda>i. type i = CVE \<and> source i = s) (collect_news lib env True)) \<le> 2)
   \<and> filter (\<lambda>i. type i = CVE \<and> source i = ''NIST NVD'') (collect_news lib env True)
        = fetch_nvd_cve_recent env 3
   \<and> length (fetch_nvd_cve_recent env 3) \<le> 3"
proof -
  let ?u1 = "''https://nvd.nist.gov/feeds/xml/cve/misc/nvd-rss-analyzed.xml''"
  let ?u2 = "''https://www.securityfocus.com/vulnerabilities/rss''"
  let ?n1 = "''nvd-rss-analyzed.xml''"
  let ?n2 = "''rss''"
  have len: "length (fetch_rss_feed lib env u n True k) \<le> nat k" if "0 \<le> k" for u n k
    using length_fetch_rss_feed [OF that] .
  have f1: "filter (\<lambda>i. source i = ?n1) (fetch_rss_feed lib env ?u2 ?n2 True k) = []" for k
    by (rule filter_nothing) (auto dest: fetch_rss_feed_source(1))
  have f2: "filter (\<lambda>i. source i = ?n2) (fetch_rss_feed lib env ?u1 ?n1 True k) = []" for k
    by (rule filter_nothing) (auto dest: fetch_rss_feed_source(1))
  have f3: "filter (\<lambda>i. source i = ?n1) (fetch_nvd_cve_recent env l) = []"
    "filter (\<lambda>i. source i = ?n2) (fetch_nvd_cve_recent env l) = []" for l
    by (rule filter_nothing, auto dest: fetch_nvd_source(1))+
  have f4: "filter (\<lambda>i. source i = ''NIST NVD'') (fetch_rss_feed lib env ?u1 ?n1 True k) = []"
    "filter (\<lambda>i. source i = ''NIST NVD'') (fetch_rss_feed lib env ?u2 ?n2 True k) = []" for k
    by (rule filter_nothing, auto dest: fetch_rss_feed_source(1))+
  have f5: "filter (\<lambda>i. source i = ''NIST NVD'') (fetch_nvd_cve_recent env l) = fetch_nvd_cve_recent env l" for l
    by (rule filter_everything) (auto dest: fetch_nvd_source(1))
  have a: "\<forall>item \<in> set (collect_cves lib env limit). type item = CVE"
    by (auto simp: collect_cves_parts dest: fetch_rss_feed_source(2) fetch_nvd_source(2))
  have le1: "length (filter (\<lambda>i. source i = s) (fetch_rss_feed lib env u n True 3)) \<le> 3" for s u n
    by (rule order_trans [OF length_filter_le]) (use len [of 3 u n] in simp)
  have b: "\<forall>s \<in> set (map cve_source_name CVE_FEEDS).
        length (filter (\<lambda>i. source i = s) (collect_cves lib env limit)) \<le> 3"
    using le1 by (simp add: cve_source_names collect_cves_parts f1 f2 f3)
  have c: "filter (\<lambda>i. source i = ''NIST NVD'') (collect_cves lib env limit) = fetch_nvd_cve_recent env limit"
    by (simp add: collect_cves_parts f4 f5)
  have r1: "\<forall>env'. requests_get env' (min limit 20) = requests_get env (min limit 20) \<longrightarrow>
        fetch_nvd_cve_recent env' limit = fetch_nvd_cve_recent env limit"
    using fetch_nvd_only_request by blast
  have r2: "\<forall>vs. requests_get env (min limit 20) = Response 200 (Data (Some vs)) \<longrightarrow>
        fetch_nvd_cve_recent env limit = nvd_loop (py_slice_to limit vs)
        \<and> length (fetch_nvd_cve_recent env limit)
            \<le> (if 0 \<le> limit then min (nat limit) (length vs) else length vs - nat (- limit))"
  proof (intro allI impI)
    fix vs
    assume q: "requests_get env (min limit 20) = Response 200 (Data (Some vs))"
    have e: "fetch_nvd_cve_recent env limit = nvd_loop (py_slice_to limit vs)"
      by (rule fetch_nvd_reply [OF q])
    have "length (nvd_loop (py_slice_to limit vs)) \<le> length (py_slice_to limit vs)"
      by (rule length_nvd_loop)
    then have "length (fetch_nvd_cve_recent env limit)
            \<le> (if 0 \<le> limit then min (nat limit) (length vs) else length vs - nat (- limit))"
      unfolding e length_py_slice_to_exact .
    with e show "fetch_nvd_cve_recent env limit = nvd_loop (py_slice_to limit vs)
        \<and> length (fetch_nvd_cve_recent env limit)
            \<le> (if 0 \<le> limit then min (nat limit) (length vs) else length vs - nat (- limit))"
      by (rule conjI)
  qed
  have r3: "(\<forall>vs. requests_get env (min limit 20) \<noteq> Response 200 (Data (Some vs))) \<longrightarrow>
        fetch_nvd_cve_recent env limit = []"
    using fetch_nvd_no_reply by blast
  have d: "get_cves_only lib env limit = Inr ys \<longrightarrow>
        (\<exists>zs. sort_by_date lib (collect_cves lib env limit) = Inr zs \<and> ys = py_slice_to limit zs)
        \<and> (\<forall>P. length (filter P ys) \<le> length (filter P (collect_cves lib env limit)))"
  proof
    assume y: "get_cves_only lib env limit = Inr ys"
    then have "\<exists>zs. sort_by_date lib (collect_cves lib env limit) = Inr zs \<and> ys = py_slice_to limit zs"
      by (auto simp: get_cves_only_def split: sum.splits)
    moreover have "\<forall>P. length (filter P ys) \<le> length (filter P (collect_cves lib env limit))"
      using length_filter_returned [OF y] by blast
    ultimately show "(\<exists>zs. sort_by_date lib (collect_cves lib env limit) = Inr zs \<and> ys = py_slice_to limit zs)
        \<and> (\<forall>P. length (filter P ys) \<le> length (filter P (collect_cves lib env limit)))"
      by (rule conjI)
  qed
  have g1: "filter (\<lambda>i. type i = CVE \<and> source i = ?n1) (fetch_rss_feed lib env ?u2 ?n2 True k) = []" for k
    by (rule filter_nothing) (auto dest: fetch_rss_feed_source(1))
  have g2: "filter (\<lambda>i. type i = CVE \<and> source i = ?n2) (fetch_rss_feed lib env ?u1 ?n1 True k) = []" for k
    by (rule filter_nothing) (auto dest: fetch_rss_feed_source(1))
  have g3: "filter (\<lambda>i. type i = CVE \<and> source i = ?n1) (fetch_nvd_cve_recent env l) = []"
    "filter (\<lambda>i. type i = CVE \<and> source i = ?n2) (fetch_nvd_cve_recent env l) = []" for l
    by (rule filter_nothing, auto dest: fetch_nvd_source(1))+
  have g4: "filter (\<lambda>i. type i = CVE \<and> source i = ''NIST NVD'') (fetch_rss_feed lib env ?u1 ?n1 True k) = []"
    "filter (\<lambda>i. type i = CVE \<and> source i = ''NIST NVD'') (fetch_rss_feed lib env ?u2 ?n2 True k) = []" for k
    by (rule filter_nothing, auto dest: fetch_rss_feed_source(1))+
  have g5: "filter (\<lambda>i. type i = CVE \<and> source i = ''NIST NVD'') (fetch_nvd_cve_recent env l)
              = fetch_nvd_cve_recent env l" for l
    by (rule filter_everything) (auto dest: fetch_nvd_source)
  have le2: "length (filter Q (fetch_rss_feed lib env u n True 2)) \<le> 2" for Q u n
    by (rule order_trans [OF length_filter_le]) (use len [of 2 u n] in simp)
  have e: "\<forall>s \<in> set (map cve_source_name CVE_FEEDS).
        length (filter (\<lambda>i. type i = CVE \<and> source i = s) (collect_news lib env True)) \<le> 2"
    using le2 by (simp add: cve_source_names collect_news_parts news_part_no_cve g1 g2 g3)
  have f: "filter (\<lambda>i. type i = CVE \<and> source i = ''NIST NVD'') (collect_news lib env True)
        = fetch_nvd_cve_recent env 3"
    by (simp add: collect_news_parts news_part_no_cve g4 g5)
  have g: "length (fetch_nvd_cve_recent env 3) \<le> 3"
    using length_fetch_nvd [of 3 env] by simp
  show ?thesis
    by (intro conjI) (rule a b c r1 r2 r3 d e f g)+
qed

theorem cves_only_fetch_bounds_witness:
  "map source (collect_cves example_lib busy_cve_env 10) =
     [''rss'', ''rss'', ''rss'', ''NIST NVD'', ''NIST NVD'', ''NIST NVD'', ''NIST NVD'']
   \<and> ''rss'' \<in> set (map cve_source_name CVE_FEEDS)
   \<and> length (filter (\<lambda>i. source i = ''rss'') (collect_cves example_lib busy_cve_env 10)) \<le> 3
   \<and> requests_get busy_cve_env (min 10 20) =
       Response 200 (Data (Some [plain_cve ''CVE-2024-0001'' None, plain_cve ''CVE-2024-0002'' None,
                                 plain_cve ''CVE-2024-0003'' None, plain_cve ''CVE-2024-0004'' None]))
   \<and> length (fetch_nvd_cve_recent busy_cve_env 10) \<le> 4"
proof -
  let ?vs = "[plain_cve ''CVE-2024-0001'' None, plain_cve ''CVE-2024-0002'' None,
              plain_cve ''CVE-2024-0003'' None, plain_cve ''CVE-2024-0004'' None]"
  have m: "map source (collect_cves example_lib busy_cve_env 10) =
     [''rss'', ''rss'', ''rss'', ''NIST NVD'', ''NIST NVD'', ''NIST NVD'', ''NIST NVD'']"
    by (simp add: busy_collected feed_item_def api_item_def)
  have s: "''rss'' \<in> set (map cve_source_name CVE_FEEDS)"
    by (simp add: cve_source_names)
  have q: "requests_get busy_cve_env (min 10 20) = Response 200 (Data (Some ?vs))"
    by (simp add: busy_cve_env_def one_feed_env_def)
  note b = cves_only_fetch_bounds [of example_lib busy_cve_env 10 "[]"]
  have "\<forall>s \<in> set (map cve_source_name CVE_FEEDS).
        length (filter (\<lambda>i. source i = s) (collect_cves example_lib busy_cve_env 10)) \<le> 3"
    by (rule conjunct1 [OF conjunct2 [OF b]])
  then have r: "length (filter (\<lambda>i. source i = ''rss'') (collect_cves example_lib busy_cve_env 10)) \<le> 3"
    using s by blast
  have "\<forall>vs. requests_get busy_cve_env (min 10 20) = Response 200 (Data (Some vs)) \<longrightarrow>
        fetch_nvd_cve_recent busy_cve_env 10 = nvd_loop (py_slice_to 10 vs)
        \<and> length (fetch_nvd_cve_recent busy_cve_env 10)
            \<le> (if 0 \<le> (10::int) then min (nat 10) (length vs) else length vs - nat (- 10))"
    by (rule conjunct1 [OF conjunct2 [OF conjunct2 [OF conjunct2 [OF conjunct2 [OF b]]]]])
  then have n: "length (fetch_nvd_cve_recent busy_cve_env 10) \<le> 4"
    using q by auto
  show ?thesis
    using m s r q n by (intro conjI)
qed

text \<open>
  C9, as stated, fails for a negative limit, which the slice \<open>[:limit]\<close> counts from the
  end: with three items collected, \<open>limit = -1\<close> returns two.
\<close>

theorem negative_limit_counterexample:
  "get_latest_news example_lib dated_env (- 1) True =
     Inr [api_item ''CVE-2024-0001'' ''2024-05-01T12:00:00'', feed_item ''April'' (Some ''2024-04-01T00:00:00'')]
   \<and> \<not> int (length [api_item ''CVE-2024-0001'' ''2024-05-01T12:00:00'',
                       feed_item ''April'' (Some ''2024-04-01T00:00:00'')]) \<le> - 1"
  by (simp add: dated_ranked py_slice_to_def)

text \<open>
  C9, amended. For every limit \<open>n \<ge> 0\<close>, a sequence returned by
  \<open>get_latest_news(limit=n)\<close> or \<open>get_cves_only(limit=n)\<close> has at most \<open>n\<close> items,
  whatever the sources return.
\<close>

theorem truncation_bound:
  assumes "0 \<le> limit"
    and "get_latest_news lib env limit include_cves = Inr ys \<or> get_cves_only lib env limit = Inr ys"
  shows "int (length ys) \<le> limit"
proof -
  obtain zs where "ys = py_slice_to limit zs"
    using assms(2) by (auto simp: get_latest_news_def get_cves_only_def split: sum.splits)
  then show ?thesis
    using length_py_slice_to [OF assms(1), of zs] assms(1) by simp
qed

theorem truncation_bound_witness:
  "(0::int) \<le> 2
   \<and> get_latest_news example_lib dated_env 2 True =
       Inr [api_item ''CVE-2024-0001'' ''2024-05-01T12:00:00'', feed_item ''April'' (Some ''2024-04-01T00:00:00'')]
   \<and> int (length [api_item ''CVE-2024-0001'' ''2024-05-01T12:00:00'',
                   feed_item ''April'' (Some ''2024-04-01T00:00:00'')]) \<le> 2"
proof -
  have r: "get_latest_news example_lib dated_env 2 True =
       Inr [api_item ''CVE-2024-0001'' ''2024-05-01T12:00:00'', feed_item ''April'' (Some ''2024-04-01T00:00:00'')]"
    by (simp add: dated_ranked py_slice_to_def)
  have z: "(0::int) \<le> 2" by simp
  show ?thesis
    using truncation_bound [OF z disjI1, OF r] r by simp
qed

end
